theory Spec2Isabelle
  imports Complex_Main
begin

section \<open>Python values and errors\<close>

text \<open>
  The programs are Python. An uncaught exception is a value \<open>Inl e\<close> of the result type
  \<open>py_error + 'a\<close>; a normal return is \<open>Inr v\<close>. Pixel coordinates are Python ints
  (\<open>int\<close>); floats are \<open>real\<close> numbers. The arithmetic on the cursor and on the
  volume percentage rounds to double precision: there each operation is taken from a
  record of operations, a parameter of the functions that compute with it.
\<close>

datatype py_error = IndexError | ValueError | KeyError

definition bind_err :: "py_error + 'a \<Rightarrow> ('a \<Rightarrow> py_error + 'b) \<Rightarrow> py_error + 'b" where
  "bind_err m f = (case m of Inl e \<Rightarrow> Inl e | Inr v \<Rightarrow> f v)"

text \<open>\<open>xs[i]\<close> for a non-negative constant index: IndexError out of range.\<close>

definition py_index :: "'a list \<Rightarrow> nat \<Rightarrow> py_error + 'a" where
  "py_index xs i = (if i < length xs then Inr (xs ! i) else Inl IndexError)"

text \<open>\<open>int(r)\<close> on a float truncates towards zero.\<close>

definition py_int :: "real \<Rightarrow> int" where
  "py_int r = (if 0 \<le> r then \<lfloor>r\<rfloor> else \<lceil>r\<rceil>)"

text \<open>\<open>str(n)\<close> of a non-negative int, as used by the f-string of the fallback label.\<close>

fun py_str :: "nat \<Rightarrow> string" where
  "py_str n = (if n < 10 then [char_of (48 + n)]
               else py_str (n div 10) @ [char_of (48 + n mod 10)])"

section \<open>hand\_detector.py\<close>

text \<open>A landmark is the list \<open>[id, cx, cy]\<close> built by \<open>find_position\<close>.\<close>

type_synonym landmark = "int \<times> int \<times> int"

definition lm_x :: "landmark \<Rightarrow> int" where
  "lm_x p = fst (snd p)"

definition lm_y :: "landmark \<Rightarrow> int" where
  "lm_y p = snd (snd p)"

text \<open>
  The loop of \<open>fingers_up\<close> over \<open>tip_ids\<close>: each step reads \<open>landmark_list[tip_id]\<close> and
  \<open>landmark_list[tip_id - 2]\<close> and appends 1 or 0 (here \<open>True\<close> or \<open>False\<close>).
\<close>

fun fingers_loop :: "landmark list \<Rightarrow> nat list \<Rightarrow> py_error + bool list" where
  "fingers_loop lms [] = Inr []"
| "fingers_loop lms (tip_id # rest) =
     bind_err (py_index lms tip_id) (\<lambda>tip.
     bind_err (py_index lms (tip_id - 2)) (\<lambda>pip.
     bind_err (fingers_loop lms rest) (\<lambda>fs.
       Inr ((lm_y tip < lm_y pip) # fs))))"

definition fingers_up :: "landmark list \<Rightarrow> py_error + bool list" where
  "fingers_up lms =
     (if length lms = 0 then Inr []
      else
        bind_err (py_index lms 4) (\<lambda>thumb_tip.
        bind_err (py_index lms 3) (\<lambda>thumb_ip.
        bind_err (fingers_loop lms [8, 12, 16, 20]) (\<lambda>fs.
          Inr ((lm_x thumb_tip < lm_x thumb_ip) # fs)))))"

section \<open>gesture\_recognition.py\<close>

text \<open>\<open>_calculate_distance\<close>: \<open>np.sqrt\<close> of the sum of the squared differences.\<close>

definition calculate_distance :: "landmark \<Rightarrow> landmark \<Rightarrow> real" where
  "calculate_distance point1 point2 =
     sqrt (real_of_int ((lm_x point1 - lm_x point2)\<^sup>2 + (lm_y point1 - lm_y point2)\<^sup>2))"

text \<open>The rules of \<open>recognize_gesture\<close> after "OK Sign", which read the flags only.\<close>

definition later_rules :: "bool \<Rightarrow> bool \<Rightarrow> bool \<Rightarrow> bool \<Rightarrow> bool \<Rightarrow> nat \<Rightarrow> string" where
  "later_rules thumb index middle ring pinky total_fingers =
     (if index \<and> pinky \<and> \<not> middle \<and> \<not> ring then ''Rock Sign''
      else if total_fingers = 0 then ''Fist''
      else if total_fingers = 5 then ''Open Palm''
      else if index \<and> \<not> middle \<and> \<not> ring \<and> \<not> pinky \<and> \<not> thumb then ''Pointing''
      else if index \<and> middle \<and> ring \<and> \<not> pinky \<and> \<not> thumb then ''Three Fingers''
      else if index \<and> middle \<and> ring \<and> pinky \<and> \<not> thumb then ''Four Fingers''
      else if thumb \<and> pinky \<and> \<not> index \<and> \<not> middle \<and> \<not> ring then ''Call Me''
      else if thumb \<and> index \<and> \<not> middle \<and> \<not> ring \<and> \<not> pinky then ''Finger Gun''
      else py_str total_fingers @ '' Fingers Up'')"

text \<open>The "OK Sign" rule and what follows it.\<close>

definition ok_sign_rule ::
  "landmark list \<Rightarrow> bool \<Rightarrow> bool \<Rightarrow> bool \<Rightarrow> bool \<Rightarrow> bool \<Rightarrow> nat \<Rightarrow> py_error + string" where
  "ok_sign_rule lms thumb index middle ring pinky total_fingers =
     (if thumb \<and> index then
        bind_err (py_index lms 4) (\<lambda>p4.
        bind_err (py_index lms 8) (\<lambda>p8.
          if calculate_distance p4 p8 < 40 then Inr ''OK Sign''
          else Inr (later_rules thumb index middle ring pinky total_fingers)))
      else Inr (later_rules thumb index middle ring pinky total_fingers))"

text \<open>The "Thumbs Down" rule and what follows it.\<close>

definition thumbs_down_rule ::
  "landmark list \<Rightarrow> bool \<Rightarrow> bool \<Rightarrow> bool \<Rightarrow> bool \<Rightarrow> bool \<Rightarrow> nat \<Rightarrow> py_error + string" where
  "thumbs_down_rule lms thumb index middle ring pinky total_fingers =
     (if \<not> thumb \<and> \<not> index \<and> \<not> middle \<and> \<not> ring \<and> \<not> pinky then
        bind_err (py_index lms 4) (\<lambda>p4.
        bind_err (py_index lms 3) (\<lambda>p3.
          if lm_y p4 > lm_y p3 then Inr ''Thumbs Down''
          else ok_sign_rule lms thumb index middle ring pinky total_fingers))
      else ok_sign_rule lms thumb index middle ring pinky total_fingers)"

definition recognize_gesture :: "landmark list \<Rightarrow> py_error + string" where
  "recognize_gesture lms =
     (if length lms = 0 then Inr ''No Hand''
      else
        bind_err (fingers_up lms) (\<lambda>fingers.
          let total_fingers = count_list fingers True in
          case fingers of
            [thumb, index, middle, ring, pinky] \<Rightarrow>
              if index \<and> middle \<and> \<not> ring \<and> \<not> pinky \<and> \<not> thumb then Inr ''Peace Sign''
              else if thumb \<and> \<not> index \<and> \<not> middle \<and> \<not> ring \<and> \<not> pinky then Inr ''Thumbs Up''
              else thumbs_down_rule lms thumb index middle ring pinky total_fingers
          | _ \<Rightarrow> Inl ValueError))"

text \<open>
  \<open>GestureRecognizer\<close>: the fields that \<open>smooth_gesture\<close> reads and writes (the
  detector is the external landmark model).
\<close>

record GestureRecognizer =
  gesture_history :: "string list"
  gesture_history_length :: int

definition GestureRecognizer_init :: GestureRecognizer where
  "GestureRecognizer_init = \<lparr>gesture_history = [], gesture_history_length = 5\<rparr>"

text \<open>
  Python's \<open>max(iterable, key=f)\<close>: the running maximum is replaced only by an element
  whose key is strictly greater, so the first maximal element in iteration order is
  returned; the empty iterable raises ValueError.
\<close>

fun max_key_loop :: "('a \<Rightarrow> nat) \<Rightarrow> 'a \<Rightarrow> 'a list \<Rightarrow> 'a" where
  "max_key_loop key best [] = best"
| "max_key_loop key best (x # xs) =
     max_key_loop key (if key x > key best then x else best) xs"

definition py_max_key :: "('a \<Rightarrow> nat) \<Rightarrow> 'a list \<Rightarrow> py_error + 'a" where
  "py_max_key key xs =
     (case xs of [] \<Rightarrow> Inl ValueError | x # rest \<Rightarrow> Inr (max_key_loop key x rest))"

text \<open>
  \<open>smooth_gesture\<close>. \<open>set(self.gesture_history)\<close> is iterated in the order of Python's
  hash table, which the list does not determine (string hashes are salted per process):
  the order is the parameter \<open>set_iter\<close>, which maps the history to the sequence in which
  its set is iterated.
\<close>

definition smooth_gesture ::
  "(string list \<Rightarrow> string list) \<Rightarrow> GestureRecognizer \<Rightarrow> string
     \<Rightarrow> py_error + (string \<times> GestureRecognizer)" where
  "smooth_gesture set_iter gr current_gesture =
     (let appended = gesture_history gr @ [current_gesture];
          history = (if int (length appended) > gesture_history_length gr
                     then tl appended else appended);
          gr' = gr\<lparr>gesture_history := history\<rparr>
      in if length history > 0
         then bind_err (py_max_key (\<lambda>v. count_list history v) (set_iter history))
                (\<lambda>m. Inr (m, gr'))
         else Inr (current_gesture, gr'))"

text \<open>
  What every iteration order of a Python set satisfies: each element of the list once.
\<close>

definition set_order :: "(string list \<Rightarrow> string list) \<Rightarrow> bool" where
  "set_order set_iter \<longleftrightarrow> (\<forall>xs. distinct (set_iter xs) \<and> set (set_iter xs) = set xs)"

section \<open>numpy and float arithmetic\<close>

text \<open>
  The operations on floats that the cursor mapping and the volume mapping use, as the
  platform computes them in double precision: \<open>np.interp\<close> on two sample points
  (\<open>f_interp x x0 x1 y0 y1\<close>), \<open>np.mean\<close> of a list, and Python's \<open>+\<close>, \<open>-\<close>, \<open>*\<close> and
  \<open>/\<close>. What is proved for every such record holds for the one of the platform.
\<close>

record float_ops =
  f_interp :: "real \<Rightarrow> real \<Rightarrow> real \<Rightarrow> real \<Rightarrow> real \<Rightarrow> real"
  f_mean :: "real list \<Rightarrow> real"
  f_add :: "real \<Rightarrow> real \<Rightarrow> real"
  f_sub :: "real \<Rightarrow> real \<Rightarrow> real"
  f_mul :: "real \<Rightarrow> real \<Rightarrow> real"
  f_div :: "real \<Rightarrow> real \<Rightarrow> real"

text \<open>
  \<open>np.interp(x, [x0, x1], [y0, y1])\<close> by numpy's case analysis for two sample points,
  without rounding: the right value above \<open>x1\<close>, the left value below \<open>x0\<close>, the last
  sample at \<open>x1\<close>, and the line through the two samples in between.
\<close>

definition np_interp :: "real \<Rightarrow> real \<Rightarrow> real \<Rightarrow> real \<Rightarrow> real \<Rightarrow> real" where
  "np_interp x x0 x1 y0 y1 =
     (if x > x1 then y1
      else if x < x0 then y0
      else if x \<ge> x1 then y1
      else (y1 - y0) / (x1 - x0) * (x - x0) + y0)"

text \<open>
  The operations without rounding. The examples below use them at inputs where rounding
  to double precision does not change what the example states: the intermediate results
  are doubles, or are truncated to an integer they are not near.
\<close>

definition exact_ops :: float_ops where
  "exact_ops =
     \<lparr>f_interp = np_interp,
      f_mean = (\<lambda>xs. sum_list xs / real (length xs)),
      f_add = (\<lambda>a b. a + b),
      f_sub = (\<lambda>a b. a - b),
      f_mul = (\<lambda>a b. a * b),
      f_div = (\<lambda>a b. a / b)\<rparr>"

text \<open>
  \<open>np.clip(x, lo, hi)\<close> is \<open>minimum(maximum(x, lo), hi)\<close>; it selects one of its
  arguments and does not round.
\<close>

definition np_clip :: "real \<Rightarrow> real \<Rightarrow> real \<Rightarrow> real" where
  "np_clip x lo hi = min (max x lo) hi"

section \<open>volume\_control.py\<close>

datatype volume_method = Pycaw | Winmm | Pulse | Osascript | NoMethod

text \<open>The calls that \<open>set_volume\<close> makes on the audio backend.\<close>

datatype backend_call =
    SetMasterVolumeLevel real
  | WaveOutSetVolume int
  | PulseVolumeSetAllChans nat real
  | OsascriptSetVolume real

text \<open>
  A percentage is a Python number: \<open>int(np.mean(...))\<close> is an int, the raw value passed
  through by \<open>smooth_volume\<close> on an empty history is a float. Both are \<open>real\<close> here.
\<close>

record VolumeController =
  volume_available :: bool
  volume_method :: volume_method
  min_vol :: real
  max_vol :: real
  min_distance :: real
  max_distance :: real
  volume_history :: "real list"
  volume_history_length :: int
  current_volume :: real

text \<open>
  What \<open>_initialize_volume_control\<close> found on the platform: the backend that answered
  (pycaw with its volume range), or none.
\<close>

datatype probe_result = PycawOk real real | WinmmOk | PulseOk | OsascriptOk | AllFailed

text \<open>
  \<open>__init__\<close> takes no argument. It runs the probe and then assigns the gesture
  parameters, the empty history and \<open>current_volume = 50\<close> (after the probe, so the
  probe's reading of the current volume is overwritten).
\<close>

definition VolumeController_init :: "probe_result \<Rightarrow> VolumeController" where
  "VolumeController_init probe =
     \<lparr>volume_available = (probe \<noteq> AllFailed),
      volume_method = (case probe of PycawOk lo hi \<Rightarrow> Pycaw | WinmmOk \<Rightarrow> Winmm
                        | PulseOk \<Rightarrow> Pulse | OsascriptOk \<Rightarrow> Osascript | AllFailed \<Rightarrow> NoMethod),
      min_vol = (case probe of PycawOk lo hi \<Rightarrow> lo | _ \<Rightarrow> - 65.25),
      max_vol = (case probe of PycawOk lo hi \<Rightarrow> hi | _ \<Rightarrow> 0),
      min_distance = 20,
      max_distance = 280,
      volume_history = [],
      volume_history_length = 8,
      current_volume = 50\<rparr>"

definition smooth_volume ::
  "float_ops \<Rightarrow> VolumeController \<Rightarrow> real \<Rightarrow> real \<times> VolumeController" where
  "smooth_volume ops vc vol_percentage =
     (let appended = volume_history vc @ [vol_percentage];
          history = (if int (length appended) > volume_history_length vc
                     then tl appended else appended);
          vc' = vc\<lparr>volume_history := history\<rparr>
      in if length history > 0
         then (of_int (py_int (f_mean ops history)), vc')
         else (vol_percentage, vc'))"

text \<open>
  The backend branch of \<open>set_volume\<close>, chosen by \<open>volume_method\<close>: the calls it makes
  when none of them raises. \<open>sinks\<close> is what \<open>pulse.sink_list()\<close> returns; the pulse branch
  makes one call per sink.
\<close>

definition backend_calls ::
  "float_ops \<Rightarrow> nat list \<Rightarrow> VolumeController \<Rightarrow> real \<Rightarrow> backend_call list" where
  "backend_calls ops sinks vc vol_percentage =
     (case volume_method vc of
        Pycaw \<Rightarrow>
          [SetMasterVolumeLevel (f_interp ops vol_percentage 0 100 (min_vol vc) (max_vol vc))]
      | Winmm \<Rightarrow>
          (let vol_value = py_int (f_mul ops (f_div ops vol_percentage 100) 65535)
           in [WaveOutSetVolume (or (push_bit 16 vol_value) vol_value)])
      | Pulse \<Rightarrow>
          map (\<lambda>sink. PulseVolumeSetAllChans sink (f_div ops vol_percentage 100)) sinks
      | Osascript \<Rightarrow> [OsascriptSetVolume vol_percentage]
      | NoMethod \<Rightarrow> [])"

text \<open>
  \<open>set_volume\<close> returns the percentage, the new state and the backend calls it made.
  \<open>raising\<close> is the position of the first backend call that raises, if one does: the
  calls after it are not made, and the \<open>except\<close> clause clears \<open>volume_available\<close>.
  The comparison with the held percentage is on Python's difference of the two numbers.
\<close>

definition set_volume ::
  "float_ops \<Rightarrow> nat list \<Rightarrow> nat option \<Rightarrow> VolumeController \<Rightarrow> real
     \<Rightarrow> real \<times> VolumeController \<times> backend_call list" where
  "set_volume ops sinks raising vc distance =
     (let raw_vol_percentage =
            f_interp ops distance (min_distance vc) (max_distance vc) 0 100;
          raw_vol_percentage = np_clip raw_vol_percentage 0 100;
          (vol_percentage, vc1) = smooth_volume ops vc raw_vol_percentage
      in if \<bar>f_sub ops vol_percentage (current_volume vc1)\<bar> < 2
         then (current_volume vc1, vc1, [])
         else
           let vc2 = vc1\<lparr>current_volume := vol_percentage\<rparr>
           in if \<not> volume_available vc2 then (current_volume vc2, vc2, [])
              else
                let calls = backend_calls ops sinks vc2 vol_percentage;
                    made = (case raising of None \<Rightarrow> calls | Some k \<Rightarrow> take (Suc k) calls);
                    raised = (case raising of None \<Rightarrow> False | Some k \<Rightarrow> k < length calls);
                    vc3 = (if raised then vc2\<lparr>volume_available := False\<rparr> else vc2)
                in (current_volume vc3, vc3, made))"

section \<open>virtual\_mouse.py\<close>

text \<open>The calls made on pyautogui.\<close>

datatype mouse_event = Scroll int | RightClick | MoveTo int int | LeftClick

record VirtualMouse =
  screen_width :: int
  screen_height :: int
  frame_width :: int
  frame_height :: int
  smoothing :: real
  mouse_prev_x :: real
  mouse_prev_y :: real
  curr_x :: real
  curr_y :: real
  click_threshold :: real
  click_cooldown :: real
  last_click_time :: real
  scroll_mode :: bool
  scroll_start_y :: int
  active_zone_margin :: int
  sensitivity_x :: real
  sensitivity_y :: real

text \<open>\<open>__init__\<close>; the screen size is what \<open>pyautogui.size()\<close> returns.\<close>

definition VirtualMouse_init :: "int \<Rightarrow> int \<Rightarrow> VirtualMouse" where
  "VirtualMouse_init w h =
     \<lparr>screen_width = w, screen_height = h,
      frame_width = 640, frame_height = 480,
      smoothing = 7,
      mouse_prev_x = 0, mouse_prev_y = 0, curr_x = 0, curr_y = 0,
      click_threshold = 40, click_cooldown = 0.3, last_click_time = 0,
      scroll_mode = False, scroll_start_y = 0,
      active_zone_margin = 100,
      sensitivity_x = 2.5, sensitivity_y = 2.5\<rparr>"

text \<open>
  The target of one axis in \<open>get_cursor_position\<close>: interpolate, multiply by the
  sensitivity, clip to the screen.
\<close>

definition cursor_target :: "float_ops \<Rightarrow> int \<Rightarrow> int \<Rightarrow> int \<Rightarrow> real \<Rightarrow> int \<Rightarrow> real" where
  "cursor_target ops margin frame_dim screen_dim sensitivity v =
     (let t = f_interp ops (real_of_int v) (real_of_int margin)
                (real_of_int (frame_dim - margin)) 0 (real_of_int screen_dim);
          t = f_mul ops t sensitivity
      in np_clip t 0 (real_of_int (screen_dim - 1)))"

definition get_cursor_position ::
  "float_ops \<Rightarrow> VirtualMouse \<Rightarrow> int \<times> int \<Rightarrow> (int \<times> int) \<times> VirtualMouse" where
  "get_cursor_position ops vm index_finger_pos =
     (let x = cursor_target ops (active_zone_margin vm) (frame_width vm) (screen_width vm)
                (sensitivity_x vm) (fst index_finger_pos);
          y = cursor_target ops (active_zone_margin vm) (frame_height vm) (screen_height vm)
                (sensitivity_y vm) (snd index_finger_pos);
          cx = f_add ops (mouse_prev_x vm)
                 (f_div ops (f_sub ops x (mouse_prev_x vm)) (smoothing vm));
          cy = f_add ops (mouse_prev_y vm)
                 (f_div ops (f_sub ops y (mouse_prev_y vm)) (smoothing vm))
      in ((py_int cx, py_int cy),
          vm\<lparr>curr_x := cx, curr_y := cy, mouse_prev_x := cx, mouse_prev_y := cy\<rparr>))"

text \<open>
  The pipeline as the specification words it, for comparison: remap and clamp to the
  screen first, multiply by the sensitivity afterwards, no second clamp.
\<close>

definition spec_cursor_target ::
  "float_ops \<Rightarrow> int \<Rightarrow> int \<Rightarrow> int \<Rightarrow> real \<Rightarrow> int \<Rightarrow> real" where
  "spec_cursor_target ops margin frame_dim screen_dim sensitivity v =
     (let t = f_interp ops (real_of_int v) (real_of_int margin)
                (real_of_int (frame_dim - margin)) 0 (real_of_int screen_dim);
          t = np_clip t 0 (real_of_int (screen_dim - 1))
      in f_mul ops t sensitivity)"

definition spec_get_cursor_position ::
  "float_ops \<Rightarrow> VirtualMouse \<Rightarrow> int \<times> int \<Rightarrow> (int \<times> int) \<times> VirtualMouse" where
  "spec_get_cursor_position ops vm index_finger_pos =
     (let x = spec_cursor_target ops (active_zone_margin vm) (frame_width vm) (screen_width vm)
                (sensitivity_x vm) (fst index_finger_pos);
          y = spec_cursor_target ops (active_zone_margin vm) (frame_height vm)
                (screen_height vm) (sensitivity_y vm) (snd index_finger_pos);
          cx = f_add ops (mouse_prev_x vm)
                 (f_div ops (f_sub ops x (mouse_prev_x vm)) (smoothing vm));
          cy = f_add ops (mouse_prev_y vm)
                 (f_div ops (f_sub ops y (mouse_prev_y vm)) (smoothing vm))
      in ((py_int cx, py_int cy),
          vm\<lparr>curr_x := cx, curr_y := cy, mouse_prev_x := cx, mouse_prev_y := cy\<rparr>))"

text \<open>\<open>math.hypot\<close> of two int differences.\<close>

definition hypot :: "int \<Rightarrow> int \<Rightarrow> real" where
  "hypot dx dy = sqrt (real_of_int (dx\<^sup>2 + dy\<^sup>2))"

text \<open>
  \<open>detect_left_click\<close>; \<open>now\<close> is the value of \<open>time.time()\<close>. Indices 4 and 8 are in
  range after the length check.
\<close>

definition detect_left_click ::
  "VirtualMouse \<Rightarrow> landmark list \<Rightarrow> real \<Rightarrow> bool \<times> VirtualMouse" where
  "detect_left_click vm lms now =
     (if length lms < 21 then (False, vm)
      else
        let thumb_tip = lms ! 4;
            index_tip = lms ! 8;
            distance = hypot (lm_x thumb_tip - lm_x index_tip) (lm_y thumb_tip - lm_y index_tip)
        in if now - last_click_time vm < click_cooldown vm then (False, vm)
           else if distance < click_threshold vm then (True, vm\<lparr>last_click_time := now\<rparr>)
           else (False, vm))"

definition detect_right_click :: "bool list \<Rightarrow> bool" where
  "detect_right_click fingers = (if length fingers \<noteq> 5 then False else list_all id fingers)"

definition detect_scroll_mode :: "bool list \<Rightarrow> bool" where
  "detect_scroll_mode fingers = (if length fingers \<noteq> 5 then False else \<not> list_ex id fingers)"

definition perform_scroll :: "VirtualMouse \<Rightarrow> int \<Rightarrow> VirtualMouse \<times> mouse_event list" where
  "perform_scroll vm current_y =
     (if scroll_start_y vm = 0 then (vm\<lparr>scroll_start_y := current_y\<rparr>, [])
      else
        let delta_y = scroll_start_y vm - current_y
        in if \<bar>delta_y\<bar> > 20
           then (vm\<lparr>scroll_start_y := current_y\<rparr>, [Scroll (py_int (real_of_int delta_y / 10))])
           else (vm, []))"

text \<open>
  One iteration of the loop of \<open>main\<close> of virtual\_mouse.py, from the landmark list of
  the frame and the clock reading to the new state and the pyautogui calls (the drawing of
  the interface is left out). An exception leaves the loop.
\<close>

definition mouse_frame ::
  "float_ops \<Rightarrow> VirtualMouse \<Rightarrow> landmark list \<Rightarrow> real
     \<Rightarrow> py_error + (VirtualMouse \<times> mouse_event list)" where
  "mouse_frame ops mouse lms now =
     (if length lms \<noteq> 0 then
        bind_err (fingers_up lms) (\<lambda>fingers.
        bind_err (py_index lms 8) (\<lambda>p8.
          let index_tip = (lm_x p8, lm_y p8) in
          if detect_scroll_mode fingers then
            Inr (perform_scroll (mouse\<lparr>scroll_mode := True\<rparr>) (snd index_tip))
          else if detect_right_click fingers then
            (let m1 = mouse\<lparr>scroll_mode := False, scroll_start_y := 0\<rparr>
             in if now - last_click_time m1 > click_cooldown m1
                then Inr (m1\<lparr>last_click_time := now\<rparr>, [RightClick])
                else Inr (m1, []))
          else
            bind_err (py_index fingers 1) (\<lambda>index_up.
              if index_up then
                (let m1 = mouse\<lparr>scroll_mode := False, scroll_start_y := 0\<rparr>;
                     (cursor_pos, m2) = get_cursor_position ops m1 index_tip;
                     (clicked, m3) = detect_left_click m2 lms now
                 in Inr (m3, MoveTo (fst cursor_pos) (snd cursor_pos)
                               # (if clicked then [LeftClick] else [])))
              else Inr (mouse\<lparr>scroll_mode := False, scroll_start_y := 0\<rparr>, []))))
      else Inr (mouse\<lparr>scroll_mode := False, scroll_start_y := 0\<rparr>, []))"

text \<open>The loop over the frames, each pyautogui call paired with the clock of its frame.\<close>

fun mouse_run ::
  "float_ops \<Rightarrow> VirtualMouse \<Rightarrow> (landmark list \<times> real) list
     \<Rightarrow> py_error + (VirtualMouse \<times> (real \<times> mouse_event) list)" where
  "mouse_run ops mouse [] = Inr (mouse, [])"
| "mouse_run ops mouse (frame # frames) =
     bind_err (mouse_frame ops mouse (fst frame) (snd frame)) (\<lambda>r.
     bind_err (mouse_run ops (fst r) frames) (\<lambda>rest.
       Inr (fst rest, map (\<lambda>e. (snd frame, e)) (snd r) @ snd rest)))"

text \<open>
  A sequence of calls of \<open>detect_left_click\<close>, one per frame: the clock readings at which
  it returned \<open>True\<close>.
\<close>

fun left_click_times :: "VirtualMouse \<Rightarrow> (landmark list \<times> real) list \<Rightarrow> real list" where
  "left_click_times vm [] = []"
| "left_click_times vm (frame # frames) =
     (let r = detect_left_click vm (fst frame) (snd frame)
      in (if fst r then [snd frame] else []) @ left_click_times (snd r) frames)"

section \<open>virtual\_painter.py\<close>

type_synonym color = "nat \<times> nat \<times> nat"

type_synonym image = "color list list"

type_synonym box = "int \<times> int \<times> int \<times> int"

record VirtualPainter =
  canvas :: "image option"
  drawing :: bool
  painter_prev_x :: int
  painter_prev_y :: int
  current_color :: color
  brush_thickness :: int
  eraser_thickness :: int
  color_boxes :: "(string \<times> box \<times> color) list"

text \<open>The dictionary \<open>self.colors\<close> (BGR), in insertion order.\<close>

definition colors :: "(string \<times> color) list" where
  "colors = [(''red'', (0, 0, 255)), (''green'', (0, 255, 0)), (''blue'', (255, 0, 0)),
             (''yellow'', (0, 255, 255)), (''white'', (255, 255, 255)),
             (''eraser'', (0, 0, 0))]"

definition colors_get :: "string \<Rightarrow> py_error + color" where
  "colors_get name = (case map_of colors name of None \<Rightarrow> Inl KeyError | Some c \<Rightarrow> Inr c)"

definition VirtualPainter_init :: VirtualPainter where
  "VirtualPainter_init =
     \<lparr>canvas = None, drawing = False, painter_prev_x = 0, painter_prev_y = 0,
      current_color = (255, 0, 0), brush_thickness = 10, eraser_thickness = 50,
      color_boxes = []\<rparr>"

text \<open>The loop of \<open>setup_color_palette\<close> over \<open>enumerate(color_names)\<close>, from index \<open>i\<close>.\<close>

fun palette_loop :: "int \<Rightarrow> string list \<Rightarrow> py_error + (string \<times> box \<times> color) list" where
  "palette_loop i [] = Inr []"
| "palette_loop i (color_name # rest) =
     (let x_pos = 50 + i * 120 in
      bind_err (colors_get color_name) (\<lambda>c.
      bind_err (palette_loop (i + 1) rest) (\<lambda>boxes.
        Inr ((color_name, (x_pos, 20, x_pos + 100, 20 + 60), c) # boxes))))"

definition setup_color_palette :: "VirtualPainter \<Rightarrow> py_error + VirtualPainter" where
  "setup_color_palette p =
     bind_err (palette_loop 0 [''red'', ''green'', ''blue'', ''yellow'', ''white'', ''eraser''])
       (\<lambda>boxes. Inr (p\<lparr>color_boxes := boxes\<rparr>))"

text \<open>The loop of \<open>check_color_selection\<close>: the first box that contains the point.\<close>

fun selection_loop :: "(string \<times> box \<times> color) list \<Rightarrow> int \<Rightarrow> int \<Rightarrow> color option" where
  "selection_loop [] x y = None"
| "selection_loop ((name, (x1, y1, x2, y2), c) # rest) x y =
     (if x1 < x \<and> x < x2 \<and> y1 < y \<and> y < y2 then Some c else selection_loop rest x y)"

definition check_color_selection :: "VirtualPainter \<Rightarrow> int \<Rightarrow> int \<Rightarrow> bool \<times> VirtualPainter" where
  "check_color_selection p x y =
     (case selection_loop (color_boxes p) x y of
        Some c \<Rightarrow> (True, p\<lparr>current_color := c\<rparr>)
      | None \<Rightarrow> (False, p))"

text \<open>\<open>np.zeros_like(img)\<close> and \<open>canvas.fill(0)\<close>: the same shape, every pixel zero.\<close>

definition zeros_like :: "image \<Rightarrow> image" where
  "zeros_like img = map (map (\<lambda>px. (0, 0, 0))) img"

text \<open>
  The state effect of \<open>process_frame\<close> on the landmark list of the frame (the returned
  picture is overlay rendering and is left out). \<open>cv_line\<close> stands for \<open>cv2.line\<close> on
  the canvas: buffer, end points, colour and thickness to the new buffer.
\<close>

definition process_frame ::
  "(image \<Rightarrow> int \<times> int \<Rightarrow> int \<times> int \<Rightarrow> color \<Rightarrow> int \<Rightarrow> image)
     \<Rightarrow> VirtualPainter \<Rightarrow> image \<Rightarrow> landmark list \<Rightarrow> py_error + VirtualPainter" where
  "process_frame cv_line p img lms =
     (let p1 = (if canvas p = None then p\<lparr>canvas := Some (zeros_like img)\<rparr> else p) in
      bind_err (if color_boxes p1 = [] then setup_color_palette p1 else Inr p1) (\<lambda>p2.
        if length lms \<noteq> 0 then
          bind_err (py_index lms 8) (\<lambda>p8.
          bind_err (py_index lms 12) (\<lambda>p12.
          bind_err (fingers_up lms) (\<lambda>fingers.
          bind_err (py_index fingers 1) (\<lambda>index_up.
          bind_err (if index_up then py_index fingers 2 else Inr False) (\<lambda>middle_up.
            let x_index = lm_x p8; y_index = lm_y p8 in
            if index_up \<and> middle_up then
              (let p3 = snd (check_color_selection (p2\<lparr>drawing := False\<rparr>) x_index y_index)
               in Inr (p3\<lparr>painter_prev_x := 0, painter_prev_y := 0\<rparr>))
            else if index_up \<and> \<not> middle_up then
              (if y_index > 100 then
                 (let p3 = (if painter_prev_x p2 = 0 \<and> painter_prev_y p2 = 0
                            then p2\<lparr>painter_prev_x := x_index, painter_prev_y := y_index\<rparr>
                            else p2);
                      thickness = (if current_color p3 = (0, 0, 0)
                                   then eraser_thickness p3 else brush_thickness p3);
                      drawn = map_option
                                (\<lambda>c. cv_line c (painter_prev_x p3, painter_prev_y p3)
                                        (x_index, y_index) (current_color p3) thickness)
                                (canvas p3)
                  in Inr (p3\<lparr>canvas := drawn, painter_prev_x := x_index,
                              painter_prev_y := y_index, drawing := True\<rparr>))
               else Inr (p2\<lparr>painter_prev_x := 0, painter_prev_y := 0\<rparr>))
            else Inr (p2\<lparr>drawing := False, painter_prev_x := 0, painter_prev_y := 0\<rparr>))))))
        else Inr p2))"

definition clear_canvas :: "VirtualPainter \<Rightarrow> VirtualPainter" where
  "clear_canvas p =
     (case canvas p of None \<Rightarrow> p | Some c \<Rightarrow> p\<lparr>canvas := Some (zeros_like c)\<rparr>)"

section \<open>Auxiliary definitions for the statements\<close>

text \<open>
  The history after \<open>append\<close> and the conditional \<open>pop(0)\<close>, as \<open>smooth_gesture\<close> and
  \<open>smooth_volume\<close> both compute it.
\<close>

definition window_push :: "'a list \<Rightarrow> int \<Rightarrow> 'a \<Rightarrow> 'a list" where
  "window_push h cap v = (if int (length (h @ [v])) > cap then tl (h @ [v]) else h @ [v])"

text \<open>
  The mouse as \<open>main\<close> sets it up on a 1920 by 1080 screen with the 1280 by 720 camera
  frame it requests.
\<close>

definition mouse_1080p :: VirtualMouse where
  "mouse_1080p = (VirtualMouse_init 1920 1080)\<lparr>frame_width := 1280, frame_height := 720\<rparr>"

text \<open>
  Three complete hands for the examples: all 21 landmarks at one point (thumb tip on index
  tip, every finger down); all five fingers up; and the index finger alone up with the
  thumb tip 10 pixels from the index tip.
\<close>

definition pinch_hand :: "landmark list" where
  "pinch_hand = replicate 21 (0, 0, 0)"

definition open_palm_hand :: "landmark list" where
  "open_palm_hand = [(0, 10, 10), (1, 10, 10), (2, 10, 10), (3, 10, 10), (4, 0, 10), (5, 10, 10), (6, 10, 10), (7, 10, 10), (8, 10, 0), (9, 10, 10), (10, 10, 10), (11, 10, 10), (12, 10, 0), (13, 10, 10), (14, 10, 10), (15, 10, 10), (16, 10, 0), (17, 10, 10), (18, 10, 10), (19, 10, 10), (20, 10, 0)]"

definition pointing_pinch_hand :: "landmark list" where
  "pointing_pinch_hand = [(0, 10, 10), (1, 10, 10), (2, 10, 10), (3, 10, 10), (4, 10, 10), (5, 10, 10), (6, 10, 10), (7, 10, 10), (8, 10, 0), (9, 10, 10), (10, 10, 10), (11, 10, 10), (12, 10, 10), (13, 10, 10), (14, 10, 10), (15, 10, 10), (16, 10, 10), (17, 10, 10), (18, 10, 10), (19, 10, 10), (20, 10, 10)]"

text \<open>The click calls among the pyautogui calls of a run, with their clock readings.\<close>

fun is_click :: "mouse_event \<Rightarrow> bool" where
  "is_click LeftClick = True"
| "is_click RightClick = True"
| "is_click (Scroll n) = False"
| "is_click (MoveTo x y) = False"

definition click_events :: "(real \<times> mouse_event) list \<Rightarrow> (real \<times> mouse_event) list" where
  "click_events evs = filter (\<lambda>te. is_click (snd te)) evs"

text \<open>
  A run of three frames: an open palm, then the pointing pinch 0.1 s and 0.4 s later.
\<close>

definition right_then_left_frames :: "(landmark list \<times> real) list" where
  "right_then_left_frames =
     [(open_palm_hand, 1000), (pointing_pinch_hand, 1000 + 0.1), (pointing_pinch_hand, 1000 + 0.4)]"

text \<open>
  The smoothed percentage that \<open>set_volume\<close> compares with the held one, and the state
  after the push into the history.
\<close>

definition smoothed_percentage :: "float_ops \<Rightarrow> VolumeController \<Rightarrow> real \<Rightarrow> real" where
  "smoothed_percentage ops vc distance =
     fst (smooth_volume ops vc
            (np_clip (f_interp ops distance (min_distance vc) (max_distance vc) 0 100) 0 100))"

definition pushed_state :: "float_ops \<Rightarrow> VolumeController \<Rightarrow> real \<Rightarrow> VolumeController" where
  "pushed_state ops vc distance =
     snd (smooth_volume ops vc
            (np_clip (f_interp ops distance (min_distance vc) (max_distance vc) 0 100) 0 100))"

text \<open>
  Two properties of the operations that the bounds below rest on. Double-precision
  arithmetic has both, because rounding is monotone and leaves the integers up to
  \<open>2 ^ 52\<close> as they are: the mean of a non-empty list lies between any two integers that
  bound its elements (as long as the length times the larger bound stays within
  \<open>2 ^ 52\<close>), and a smoothing step with divisor at least 1 between two values in
  \<open>[0, hi]\<close>, for an integer \<open>hi\<close> below \<open>2 ^ 52\<close>, stays in \<open>[0, hi]\<close>.
\<close>

definition mean_between :: "float_ops \<Rightarrow> bool" where
  "mean_between ops \<longleftrightarrow>
     (\<forall>xs lo hi. xs \<noteq> [] \<and> int (length xs) * max \<bar>lo\<bar> \<bar>hi\<bar> \<le> 2 ^ 52
          \<and> (\<forall>x \<in> set xs. real_of_int lo \<le> x \<and> x \<le> real_of_int hi)
        \<longrightarrow> real_of_int lo \<le> f_mean ops xs \<and> f_mean ops xs \<le> real_of_int hi)"

definition smoothing_between :: "float_ops \<Rightarrow> bool" where
  "smoothing_between ops \<longleftrightarrow>
     (\<forall>p x s hi. 1 \<le> s \<and> hi < 2 ^ 52 \<and> 0 \<le> p \<and> p \<le> real_of_int hi
          \<and> 0 \<le> x \<and> x \<le> real_of_int hi
        \<longrightarrow> 0 \<le> f_add ops p (f_div ops (f_sub ops x p) s)
            \<and> f_add ops p (f_div ops (f_sub ops x p) s) \<le> real_of_int hi)"

text \<open>
  A complete hand with index and middle finger up, and a painter whose canvas holds a
  drawn pixel and whose stroke is under way.
\<close>

definition peace_hand :: "landmark list" where
  "peace_hand = [(0, 10, 10), (1, 10, 10), (2, 10, 10), (3, 10, 10), (4, 10, 10), (5, 10, 10), (6, 10, 10), (7, 10, 10), (8, 10, 0), (9, 10, 10), (10, 10, 10), (11, 10, 10), (12, 10, 0), (13, 10, 10), (14, 10, 10), (15, 10, 10), (16, 10, 10), (17, 10, 10), (18, 10, 10), (19, 10, 10), (20, 10, 10)]"

definition painted :: VirtualPainter where
  "painted = VirtualPainter_init\<lparr>canvas := Some [[(255, 0, 0), (0, 0, 0)]],
                                  painter_prev_x := 300, painter_prev_y := 200\<rparr>"

section \<open>Malformed landmark lists\<close>

text \<open>
  C1. A landmark list of one point is neither empty nor complete. \<open>fingers_up\<close> and
  \<open>recognize_gesture\<close> test only for length 0, so both go on to read
  \<open>landmark_list[4]\<close>, which is out of range: they raise IndexError instead of returning
  the empty finger state and the label "No Hand" that they return for the empty list.
\<close>

theorem malformed_landmarks_raise:
  "fingers_up [(0, 10, 10)] = Inl IndexError
   \<and> recognize_gesture [(0, 10, 10)] = Inl IndexError
   \<and> fingers_up [] = Inr []
   \<and> recognize_gesture [] = Inr ''No Hand''"
  by (simp add: fingers_up_def recognize_gesture_def py_index_def bind_err_def)

section \<open>The label smoother\<close>

text \<open>What \<open>max\<close> with a key returns: a member, of maximal key, the first such.\<close>

lemma max_key_loop_mem: "max_key_loop key b xs \<in> set (b # xs)"
  by (induction xs arbitrary: b) (auto split: if_splits)

lemma max_key_loop_ge_best: "key b \<le> key (max_key_loop key b xs)"
proof (induction xs arbitrary: b)
  case Nil show ?case by simp
next
  case (Cons x xs)
  have "key (if key x > key b then x else b) \<le> key (max_key_loop key (if key x > key b then x else b) xs)"
    by (rule Cons.IH)
  then show ?case by (auto split: if_splits)
qed

lemma max_key_loop_max: "y \<in> set (b # xs) \<Longrightarrow> key y \<le> key (max_key_loop key b xs)"
proof (induction xs arbitrary: b)
  case Nil then show ?case by simp
next
  case (Cons x xs)
  let ?b = "if key x > key b then x else b"
  from Cons.prems consider "y = b" | "y = x" | "y \<in> set xs" by auto
  then show ?case
  proof cases
    case 1
    have "key b \<le> key ?b" by simp
    also have "\<dots> \<le> key (max_key_loop key ?b xs)" by (rule max_key_loop_ge_best)
    finally show ?thesis using 1 by simp
  next
    case 2
    have "key x \<le> key ?b" by simp
    also have "\<dots> \<le> key (max_key_loop key ?b xs)" by (rule max_key_loop_ge_best)
    finally show ?thesis using 2 by simp
  next
    case 3
    then have "y \<in> set (?b # xs)" by simp
    from Cons.IH[OF this] show ?thesis by simp
  qed
qed

lemma max_key_loop_first:
  "\<exists>i < length (b # xs). (b # xs) ! i = max_key_loop key b xs
      \<and> (\<forall>j < i. key ((b # xs) ! j) < key (max_key_loop key b xs))"
proof (induction xs arbitrary: b)
  case Nil show ?case by simp
next
  case (Cons x xs)
  let ?b = "if key x > key b then x else b"
  let ?r = "max_key_loop key ?b xs"
  from Cons.IH[of ?b] obtain i where i: "i < length (?b # xs)" "(?b # xs) ! i = ?r"
     "\<forall>j < i. key ((?b # xs) ! j) < key ?r" by blast
  show ?case
  proof (cases i)
    case 0
    then have r: "?r = ?b" using i by simp
    show ?thesis
    proof (cases "key x > key b")
      case True
      then have "(b # x # xs) ! 1 = max_key_loop key b (x # xs)" using r by simp
      moreover have "\<forall>j < (1::nat). key ((b # x # xs) ! j) < key (max_key_loop key b (x # xs))"
        using True r by simp
      ultimately show ?thesis by (intro exI[of _ 1]) simp
    next
      case False
      then have "(b # x # xs) ! 0 = max_key_loop key b (x # xs)" using r by simp
      then show ?thesis by (intro exI[of _ 0]) simp
    qed
  next
    case (Suc k)
    have kb: "key ?b < key ?r" using i(3) Suc by force
    have "(b # x # xs) ! (Suc (Suc k)) = max_key_loop key b (x # xs)" using i(2) Suc by simp
    moreover have "\<forall>j < Suc (Suc k). key ((b # x # xs) ! j) < key (max_key_loop key b (x # xs))"
    proof (intro allI impI)
      fix j assume j: "j < Suc (Suc k)"
      show "key ((b # x # xs) ! j) < key (max_key_loop key b (x # xs))"
      proof (cases j)
        case 0
        have "key b \<le> key ?b" by simp
        with kb show ?thesis using 0 by simp
      next
        case (Suc m)
        show ?thesis
        proof (cases m)
          case 0
          have "key x \<le> key ?b" by simp
          with kb show ?thesis using \<open>j = Suc m\<close> 0 by simp
        next
          case (Suc n)
          then have "Suc n < i" using j \<open>j = Suc m\<close> \<open>i = Suc k\<close> by simp
          with i(3) have "key ((?b # xs) ! Suc n) < key ?r" by blast
          then show ?thesis using \<open>j = Suc m\<close> Suc by simp
        qed
      qed
    qed
    moreover have "Suc (Suc k) < length (b # x # xs)" using i(1) Suc by simp
    ultimately show ?thesis by blast
  qed
qed

lemma window_push_nonempty: "1 \<le> cap \<Longrightarrow> window_push h cap v \<noteq> []"
  by (cases h) (auto simp: window_push_def)

lemma py_max_key_props:
  assumes "xs \<noteq> []"
  shows "\<exists>r. py_max_key key xs = Inr r \<and> r \<in> set xs \<and> (\<forall>y \<in> set xs. key y \<le> key r)
          \<and> (\<exists>i < length xs. xs ! i = r \<and> (\<forall>j < i. key (xs ! j) < key r))"
proof -
  from assms obtain b rest where xs: "xs = b # rest" by (cases xs) auto
  have "py_max_key key xs = Inr (max_key_loop key b rest)" by (simp add: py_max_key_def xs)
  moreover have "max_key_loop key b rest \<in> set xs" unfolding xs by (rule max_key_loop_mem)
  moreover have "\<forall>y \<in> set xs. key y \<le> key (max_key_loop key b rest)"
    unfolding xs by (intro ballI max_key_loop_max)
  moreover have "\<exists>i < length xs. xs ! i = max_key_loop key b rest
       \<and> (\<forall>j < i. key (xs ! j) < key (max_key_loop key b rest))"
    unfolding xs by (rule max_key_loop_first)
  ultimately show ?thesis by blast
qed

lemma smooth_gesture_props:
  assumes so: "set_order set_iter" and cap: "1 \<le> gesture_history_length gr"
  shows "\<exists>r. smooth_gesture set_iter gr g
              = Inr (r, gr\<lparr>gesture_history := window_push (gesture_history gr) (gesture_history_length gr) g\<rparr>)
          \<and> r \<in> set (window_push (gesture_history gr) (gesture_history_length gr) g)
          \<and> (\<forall>y \<in> set (window_push (gesture_history gr) (gesture_history_length gr) g).
                count_list (window_push (gesture_history gr) (gesture_history_length gr) g) y
                \<le> count_list (window_push (gesture_history gr) (gesture_history_length gr) g) r)
          \<and> (\<exists>i < length (set_iter (window_push (gesture_history gr) (gesture_history_length gr) g)).
                set_iter (window_push (gesture_history gr) (gesture_history_length gr) g) ! i = r
                \<and> (\<forall>j < i. count_list (window_push (gesture_history gr) (gesture_history_length gr) g)
                              (set_iter (window_push (gesture_history gr) (gesture_history_length gr) g) ! j)
                            < count_list (window_push (gesture_history gr) (gesture_history_length gr) g) r))"
proof -
  let ?w = "window_push (gesture_history gr) (gesture_history_length gr) g"
  have ne: "?w \<noteq> []" using cap by (rule window_push_nonempty)
  have st: "set (set_iter ?w) = set ?w" using so by (simp add: set_order_def)
  then have "set_iter ?w \<noteq> []" using ne by auto
  from py_max_key_props[OF this, of "\<lambda>v. count_list ?w v"]
  obtain r where r: "py_max_key (\<lambda>v. count_list ?w v) (set_iter ?w) = Inr r"
     "r \<in> set (set_iter ?w)" "\<forall>y \<in> set (set_iter ?w). count_list ?w y \<le> count_list ?w r"
     "\<exists>i < length (set_iter ?w). set_iter ?w ! i = r \<and> (\<forall>j < i. count_list ?w (set_iter ?w ! j) < count_list ?w r)"
    by blast
  have "smooth_gesture set_iter gr g = Inr (r, gr\<lparr>gesture_history := ?w\<rparr>)"
    using ne r(1) by (simp add: smooth_gesture_def Let_def window_push_def bind_err_def)
  with r st show ?thesis by auto
qed

text \<open>Two iteration orders a set of labels can have.\<close>

lemma set_order_remdups: "set_order remdups"
  by (simp add: set_order_def)

lemma set_order_rev_remdups: "set_order (\<lambda>xs. rev (remdups xs))"
  by (simp add: set_order_def)

text \<open>
  C3 (as amended). With a capacity of at least 1, \<open>smooth_gesture\<close> returns a label of the
  window whose count in the window is maximal. Among labels tied for the maximal count it
  returns the one that comes first in the iteration order of \<open>set(self.gesture_history)\<close>:
  every label before it in that order has a strictly smaller count. The position of the
  first occurrence in the window plays no part.
\<close>

theorem smooth_gesture_mode_first_in_set_order:
  assumes "set_order set_iter" and "1 \<le> gesture_history_length gr"
  shows "\<exists>r gr'. smooth_gesture set_iter gr g = Inr (r, gr')
           \<and> r \<in> set (gesture_history gr')
           \<and> (\<forall>y \<in> set (gesture_history gr').
                 count_list (gesture_history gr') y \<le> count_list (gesture_history gr') r)
           \<and> (\<exists>i < length (set_iter (gesture_history gr')).
                 set_iter (gesture_history gr') ! i = r
                 \<and> (\<forall>j < i. count_list (gesture_history gr') (set_iter (gesture_history gr') ! j)
                             < count_list (gesture_history gr') r))"
proof -
  let ?w = "window_push (gesture_history gr) (gesture_history_length gr) g"
  let ?gr' = "gr\<lparr>gesture_history := ?w\<rparr>"
  from smooth_gesture_props[OF assms, of g] obtain r where
    r: "smooth_gesture set_iter gr g = Inr (r, ?gr')" "r \<in> set ?w"
       "\<forall>y \<in> set ?w. count_list ?w y \<le> count_list ?w r"
       "\<exists>i < length (set_iter ?w). set_iter ?w ! i = r
           \<and> (\<forall>j < i. count_list ?w (set_iter ?w ! j) < count_list ?w r)"
    by blast
  have h: "gesture_history ?gr' = ?w" by simp
  show ?thesis
    apply (rule exI[of _ r], rule exI[of _ ?gr'])
    unfolding h using r by blast
qed

theorem smooth_gesture_mode_first_in_set_order_witness:
  "set_order remdups \<and> 1 \<le> gesture_history_length GestureRecognizer_init
   \<and> smooth_gesture remdups (GestureRecognizer_init\<lparr>gesture_history := [''A'', ''A'', ''B'', ''A'']\<rparr>) ''B''
       = Inr (''A'', GestureRecognizer_init\<lparr>gesture_history := [''A'', ''A'', ''B'', ''A'', ''B'']\<rparr>)
   \<and> (\<exists>r gr'. smooth_gesture remdups GestureRecognizer_init ''Fist'' = Inr (r, gr')
           \<and> r \<in> set (gesture_history gr')
           \<and> (\<forall>y \<in> set (gesture_history gr').
                 count_list (gesture_history gr') y \<le> count_list (gesture_history gr') r)
           \<and> (\<exists>i < length (remdups (gesture_history gr')).
                 remdups (gesture_history gr') ! i = r
                 \<and> (\<forall>j < i. count_list (gesture_history gr') (remdups (gesture_history gr') ! j)
                             < count_list (gesture_history gr') r)))"
proof -
  have a: "set_order remdups" by (rule set_order_remdups)
  have b: "1 \<le> gesture_history_length GestureRecognizer_init"
    by (simp add: GestureRecognizer_init_def)
  have c: "smooth_gesture remdups (GestureRecognizer_init\<lparr>gesture_history := [''A'', ''A'', ''B'', ''A'']\<rparr>) ''B''
       = Inr (''A'', GestureRecognizer_init\<lparr>gesture_history := [''A'', ''A'', ''B'', ''A'', ''B'']\<rparr>)"
    by (simp add: smooth_gesture_def GestureRecognizer_init_def py_max_key_def bind_err_def)
  from a b c smooth_gesture_mode_first_in_set_order[OF a b, of "''Fist''"] show ?thesis by blast
qed

text \<open>
  C3 as stated fails: the window holds "Fist" at index 0 and "Open Palm" at index 1, once
  each; when the set is iterated with "Open Palm" first, the smoother returns
  "Open Palm", not the label with the earliest first occurrence.
\<close>

theorem smooth_gesture_tie_counterexample:
  "smooth_gesture (\<lambda>xs. rev (remdups xs))
      (GestureRecognizer_init\<lparr>gesture_history := [''Fist'']\<rparr>) ''Open Palm''
     = Inr (''Open Palm'', GestureRecognizer_init\<lparr>gesture_history := [''Fist'', ''Open Palm'']\<rparr>)
   \<and> count_list [''Fist'', ''Open Palm''] ''Fist'' = count_list [''Fist'', ''Open Palm''] ''Open Palm''
   \<and> [''Fist'', ''Open Palm''] ! 0 = ''Fist''"
  by (simp add: smooth_gesture_def GestureRecognizer_init_def py_max_key_def bind_err_def)

section \<open>The volume smoother\<close>

lemma sum_list_lower: "\<forall>x \<in> set xs. lo \<le> x \<Longrightarrow> lo * real (length xs) \<le> sum_list xs"
  by (induction xs) (auto simp: algebra_simps)

lemma sum_list_upper: "\<forall>x \<in> set xs. x \<le> hi \<Longrightarrow> sum_list xs \<le> hi * real (length xs)"
  by (induction xs) (auto simp: algebra_simps)

lemma mean_bounds:
  assumes "xs \<noteq> []" and "\<forall>x \<in> set xs. lo \<le> x \<and> x \<le> (hi::real)"
  shows "lo \<le> sum_list xs / real (length xs) \<and> sum_list xs / real (length xs) \<le> hi"
proof -
  have n: "0 < real (length xs)" using assms(1) by simp
  have "lo * real (length xs) \<le> sum_list xs" using assms(2) by (intro sum_list_lower) simp
  moreover have "sum_list xs \<le> hi * real (length xs)" using assms(2) by (intro sum_list_upper) simp
  ultimately show ?thesis using n by (simp add: pos_le_divide_eq pos_divide_le_eq)
qed

text \<open>The mean without rounding lies between the bounds of the list.\<close>

lemma mean_between_exact: "mean_between exact_ops"
  unfolding mean_between_def
proof (intro allI impI)
  fix xs :: "real list" and lo hi :: int
  assume a: "xs \<noteq> [] \<and> int (length xs) * max \<bar>lo\<bar> \<bar>hi\<bar> \<le> 2 ^ 52
          \<and> (\<forall>x \<in> set xs. real_of_int lo \<le> x \<and> x \<le> real_of_int hi)"
  then have "real_of_int lo \<le> sum_list xs / real (length xs)
      \<and> sum_list xs / real (length xs) \<le> real_of_int hi"
    by (intro mean_bounds) simp_all
  then show "real_of_int lo \<le> f_mean exact_ops xs \<and> f_mean exact_ops xs \<le> real_of_int hi"
    by (simp add: exact_ops_def)
qed

lemma py_int_bounds:
  assumes "real_of_int lo \<le> r" and "r \<le> real_of_int hi"
  shows "lo \<le> py_int r \<and> py_int r \<le> hi"
  using assms unfolding py_int_def by (auto simp: le_floor_iff ceiling_le_iff) linarith+

lemma smooth_volume_props:
  assumes "1 \<le> volume_history_length vc"
  shows "smooth_volume ops vc v =
           (of_int (py_int (f_mean ops
                      (window_push (volume_history vc) (volume_history_length vc) v))),
            vc\<lparr>volume_history := window_push (volume_history vc) (volume_history_length vc) v\<rparr>)"
  using window_push_nonempty[OF assms, of "volume_history vc" v]
  by (simp add: smooth_volume_def Let_def window_push_def)

text \<open>
  C4 (as amended). After a push into a window of capacity at least 1 (5 for the labels,
  8 for the volume), where the window is the old one with the value appended and the
  oldest entry dropped when the capacity is exceeded: the label smoother returns an
  element of its window; the volume smoother returns \<open>int(np.mean(window))\<close>, the mean of
  its non-empty window truncated to an integer, which lies between any two integers that
  bound the window (the mean being between them, for bounds and lengths whose product
  stays within \<open>2 ^ 52\<close>) and need not be an element of it.
\<close>

theorem smoothers_output_and_window:
  assumes "set_order set_iter" and "1 \<le> gesture_history_length gr"
    and "1 \<le> volume_history_length vc"
  shows "(\<exists>r gr'. smooth_gesture set_iter gr g = Inr (r, gr')
            \<and> gesture_history gr'
                = window_push (gesture_history gr) (gesture_history_length gr) g
            \<and> r \<in> set (gesture_history gr'))
       \<and> (\<exists>r vc'. smooth_volume ops vc v = (r, vc')
            \<and> volume_history vc'
                = window_push (volume_history vc) (volume_history_length vc) v
            \<and> volume_history vc' \<noteq> []
            \<and> r = of_int (py_int (f_mean ops (volume_history vc')))
            \<and> (mean_between ops \<longrightarrow>
                 (\<forall>lo hi. int (length (volume_history vc')) * max \<bar>lo\<bar> \<bar>hi\<bar> \<le> 2 ^ 52
                      \<and> (\<forall>x \<in> set (volume_history vc'). of_int lo \<le> x \<and> x \<le> of_int hi)
                   \<longrightarrow> of_int lo \<le> r \<and> r \<le> of_int hi)))"
proof
  let ?w = "window_push (gesture_history gr) (gesture_history_length gr) g"
  from smooth_gesture_props[OF assms(1,2), of g] obtain r where
    "smooth_gesture set_iter gr g = Inr (r, gr\<lparr>gesture_history := ?w\<rparr>)" "r \<in> set ?w"
    by blast
  then show "\<exists>r gr'. smooth_gesture set_iter gr g = Inr (r, gr')
            \<and> gesture_history gr' = ?w \<and> r \<in> set (gesture_history gr')"
    by (intro exI[of _ r] exI[of _ "gr\<lparr>gesture_history := ?w\<rparr>"]) simp
next
  let ?w = "window_push (volume_history vc) (volume_history_length vc) v"
  let ?r = "real_of_int (py_int (f_mean ops ?w))"
  let ?vc' = "vc\<lparr>volume_history := ?w\<rparr>"
  have ne: "?w \<noteq> []" using assms(3) by (rule window_push_nonempty)
  have eq: "smooth_volume ops vc v = (?r, ?vc')" using assms(3) by (rule smooth_volume_props)
  have bounds: "mean_between ops \<longrightarrow>
          (\<forall>lo hi. int (length ?w) * max \<bar>lo\<bar> \<bar>hi\<bar> \<le> 2 ^ 52
                \<and> (\<forall>x \<in> set ?w. of_int lo \<le> x \<and> x \<le> of_int hi)
                   \<longrightarrow> of_int lo \<le> ?r \<and> ?r \<le> of_int hi)"
  proof (intro allI impI)
    fix lo hi :: int
    assume mb: "mean_between ops"
    assume a: "int (length ?w) * max \<bar>lo\<bar> \<bar>hi\<bar> \<le> 2 ^ 52
                \<and> (\<forall>x \<in> set ?w. real_of_int lo \<le> x \<and> x \<le> real_of_int hi)"
    from mb ne a have "real_of_int lo \<le> f_mean ops ?w" "f_mean ops ?w \<le> real_of_int hi"
      unfolding mean_between_def by blast+
    from py_int_bounds[OF this] show "real_of_int lo \<le> ?r \<and> ?r \<le> real_of_int hi" by simp
  qed
  show "\<exists>r vc'. smooth_volume ops vc v = (r, vc')
            \<and> volume_history vc' = ?w
            \<and> volume_history vc' \<noteq> []
            \<and> r = of_int (py_int (f_mean ops (volume_history vc')))
            \<and> (mean_between ops \<longrightarrow>
                 (\<forall>lo hi. int (length (volume_history vc')) * max \<bar>lo\<bar> \<bar>hi\<bar> \<le> 2 ^ 52
                      \<and> (\<forall>x \<in> set (volume_history vc'). of_int lo \<le> x \<and> x \<le> of_int hi)
                   \<longrightarrow> of_int lo \<le> r \<and> r \<le> of_int hi))"
    apply (rule exI[of _ ?r], rule exI[of _ ?vc'])
    using eq ne bounds by simp
qed

theorem smoothers_output_and_window_witness:
  "set_order remdups
   \<and> 1 \<le> gesture_history_length (GestureRecognizer_init\<lparr>gesture_history := [''A'', ''A'', ''B'', ''A'']\<rparr>)
   \<and> 1 \<le> volume_history_length ((VolumeController_init AllFailed)\<lparr>volume_history := [100, 0]\<rparr>)
   \<and> mean_between exact_ops
   \<and> smooth_gesture remdups
        (GestureRecognizer_init\<lparr>gesture_history := [''A'', ''A'', ''B'', ''A'']\<rparr>) ''B''
       = Inr (''A'', GestureRecognizer_init\<lparr>gesture_history := [''A'', ''A'', ''B'', ''A'', ''B'']\<rparr>)
   \<and> smooth_volume exact_ops ((VolumeController_init AllFailed)\<lparr>volume_history := [100, 0]\<rparr>) 20
       = (40, (VolumeController_init AllFailed)\<lparr>volume_history := [100, 0, 20]\<rparr>)
   \<and> (\<exists>r vc'. smooth_volume exact_ops
                  ((VolumeController_init AllFailed)\<lparr>volume_history := [100, 0]\<rparr>) 20 = (r, vc')
          \<and> volume_history vc' \<noteq> []
          \<and> r = of_int (py_int (f_mean exact_ops (volume_history vc')))
          \<and> 0 \<le> r \<and> r \<le> 100)"
proof -
  let ?gr = "GestureRecognizer_init\<lparr>gesture_history := [''A'', ''A'', ''B'', ''A'']\<rparr>"
  let ?vc = "(VolumeController_init AllFailed)\<lparr>volume_history := [100, 0]\<rparr>"
  have a: "set_order remdups" by (rule set_order_remdups)
  have b: "1 \<le> gesture_history_length ?gr" by (simp add: GestureRecognizer_init_def)
  have c: "1 \<le> volume_history_length ?vc" by (simp add: VolumeController_init_def)
  have d: "mean_between exact_ops" by (rule mean_between_exact)
  have e: "smooth_gesture remdups ?gr ''B''
       = Inr (''A'', GestureRecognizer_init\<lparr>gesture_history := [''A'', ''A'', ''B'', ''A'', ''B'']\<rparr>)"
    by (simp add: smooth_gesture_def GestureRecognizer_init_def py_max_key_def bind_err_def)
  have f: "smooth_volume exact_ops ?vc 20
       = (40, (VolumeController_init AllFailed)\<lparr>volume_history := [100, 0, 20]\<rparr>)"
    by (simp add: smooth_volume_def VolumeController_init_def exact_ops_def py_int_def)
  from smoothers_output_and_window[OF a b c, of "''B''" exact_ops 20] obtain r vc' where
    r: "smooth_volume exact_ops ?vc 20 = (r, vc')"
       "volume_history vc' = window_push (volume_history ?vc) (volume_history_length ?vc) 20"
       "volume_history vc' \<noteq> []"
       "r = of_int (py_int (f_mean exact_ops (volume_history vc')))"
       "mean_between exact_ops \<longrightarrow>
          (\<forall>lo hi. int (length (volume_history vc')) * max \<bar>lo\<bar> \<bar>hi\<bar> \<le> 2 ^ 52
               \<and> (\<forall>x \<in> set (volume_history vc'). of_int lo \<le> x \<and> x \<le> of_int hi)
             \<longrightarrow> of_int lo \<le> r \<and> r \<le> of_int hi)"
    by blast
  have w: "volume_history vc' = [100, 0, 20]"
    using r(2) by (simp add: window_push_def VolumeController_init_def)
  have "int (length (volume_history vc')) * max \<bar>0\<bar> \<bar>100\<bar> \<le> 2 ^ 52
      \<and> (\<forall>x \<in> set (volume_history vc'). real_of_int 0 \<le> x \<and> x \<le> real_of_int 100)"
    unfolding w by simp
  with r(5) d have "real_of_int 0 \<le> r \<and> r \<le> real_of_int 100" by blast
  then have g: "0 \<le> r \<and> r \<le> 100" by simp
  have h: "\<exists>r vc'. smooth_volume exact_ops ?vc 20 = (r, vc')
          \<and> volume_history vc' \<noteq> []
          \<and> r = of_int (py_int (f_mean exact_ops (volume_history vc')))
          \<and> 0 \<le> r \<and> r \<le> 100"
    using r(1,3,4) g by blast
  from a b c d e f h show ?thesis by blast
qed

text \<open>
  C4 as stated fails for the volume smoother: pushing 100 into the window \<open>[0]\<close> returns
  50, which is not in the window \<open>[0, 100]\<close>.
\<close>

theorem smooth_volume_mean_counterexample:
  "fst (smooth_volume exact_ops ((VolumeController_init AllFailed)\<lparr>volume_history := [0]\<rparr>) 100)
     = 50
   \<and> volume_history
        (snd (smooth_volume exact_ops ((VolumeController_init AllFailed)\<lparr>volume_history := [0]\<rparr>) 100))
       = [0, 100]
   \<and> (50::real) \<notin> set [0, 100]"
  by (simp add: smooth_volume_def VolumeController_init_def exact_ops_def py_int_def)

section \<open>The cursor mapping\<close>

lemma np_clip_bounds: "lo \<le> hi \<Longrightarrow> lo \<le> np_clip x lo hi \<and> np_clip x lo hi \<le> hi"
  by (simp add: np_clip_def)

lemma smoothing_step_bounds:
  fixes p x s lo hi :: real
  assumes "1 \<le> s" "lo \<le> p" "p \<le> hi" "lo \<le> x" "x \<le> hi"
  shows "lo \<le> p + (x - p) / s \<and> p + (x - p) / s \<le> hi"
proof (cases "p \<le> x")
  case True
  then have "0 \<le> (x - p) / s" using assms(1) by simp
  moreover have "(x - p) / s \<le> x - p" using True assms(1) by (simp add: divide_le_eq mult_le_cancel_left1)
  ultimately show ?thesis using assms by linarith
next
  case False
  then have "(x - p) / s \<le> 0" using assms(1) by (simp add: divide_le_0_iff)
  moreover have "x - p \<le> (x - p) / s" using False assms(1) by (simp add: le_divide_eq mult_le_cancel_left2 )
  ultimately show ?thesis using assms by linarith
qed

text \<open>A smoothing step without rounding stays between its two values.\<close>

lemma smoothing_between_exact: "smoothing_between exact_ops"
  unfolding smoothing_between_def
proof (intro allI impI)
  fix p x s :: real and hi :: int
  assume a: "1 \<le> s \<and> hi < 2 ^ 52 \<and> 0 \<le> p \<and> p \<le> real_of_int hi
          \<and> 0 \<le> x \<and> x \<le> real_of_int hi"
  then have "0 \<le> p + (x - p) / s \<and> p + (x - p) / s \<le> real_of_int hi"
    by (intro smoothing_step_bounds) simp_all
  then show "0 \<le> f_add exact_ops p (f_div exact_ops (f_sub exact_ops x p) s)
            \<and> f_add exact_ops p (f_div exact_ops (f_sub exact_ops x p) s) \<le> real_of_int hi"
    by (simp add: exact_ops_def)
qed

text \<open>
  C2 (as amended). For every fingertip position \<open>get_cursor_position\<close> remaps each
  coordinate with \<open>np.interp\<close>, multiplies the remapped value by the sensitivity, clips the
  product to \<open>[0, dimension - 1]\<close>, and then smooths: the new position is the previous one
  plus the difference to the clipped target divided by the smoothing divisor; it is
  stored as the previous position and returned truncated to integers. On a screen of at
  least one pixel the clipped target lies in the screen rectangle whatever the
  sensitivity. Consequently, on a screen of at most \<open>2 ^ 52\<close> pixels a side, with a
  smoothing divisor of at least 1 and the stored previous position in the screen
  rectangle (the smoothing step staying between its two values), the returned coordinate
  and the stored position lie in the screen rectangle.
\<close>

theorem get_cursor_position_clips_after_sensitivity:
  "let tx = np_clip
              (f_mul ops
                 (f_interp ops (real_of_int (fst pos)) (real_of_int (active_zone_margin vm))
                    (real_of_int (frame_width vm - active_zone_margin vm))
                    0 (real_of_int (screen_width vm)))
                 (sensitivity_x vm))
              0 (real_of_int (screen_width vm - 1));
       ty = np_clip
              (f_mul ops
                 (f_interp ops (real_of_int (snd pos)) (real_of_int (active_zone_margin vm))
                    (real_of_int (frame_height vm - active_zone_margin vm))
                    0 (real_of_int (screen_height vm)))
                 (sensitivity_y vm))
              0 (real_of_int (screen_height vm - 1));
       cx = f_add ops (mouse_prev_x vm) (f_div ops (f_sub ops tx (mouse_prev_x vm)) (smoothing vm));
       cy = f_add ops (mouse_prev_y vm) (f_div ops (f_sub ops ty (mouse_prev_y vm)) (smoothing vm))
   in get_cursor_position ops vm pos
        = ((py_int cx, py_int cy),
           vm\<lparr>curr_x := cx, curr_y := cy, mouse_prev_x := cx, mouse_prev_y := cy\<rparr>)
      \<and> (1 \<le> screen_width vm \<longrightarrow> 0 \<le> tx \<and> tx \<le> real_of_int (screen_width vm - 1))
      \<and> (1 \<le> screen_height vm \<longrightarrow> 0 \<le> ty \<and> ty \<le> real_of_int (screen_height vm - 1))
      \<and> (smoothing_between ops \<and> 1 \<le> screen_width vm \<and> 1 \<le> screen_height vm
           \<and> screen_width vm \<le> 2 ^ 52 \<and> screen_height vm \<le> 2 ^ 52
           \<and> 1 \<le> smoothing vm
           \<and> 0 \<le> mouse_prev_x vm \<and> mouse_prev_x vm \<le> real_of_int (screen_width vm - 1)
           \<and> 0 \<le> mouse_prev_y vm \<and> mouse_prev_y vm \<le> real_of_int (screen_height vm - 1)
         \<longrightarrow> 0 \<le> py_int cx \<and> py_int cx \<le> screen_width vm - 1
             \<and> 0 \<le> py_int cy \<and> py_int cy \<le> screen_height vm - 1
             \<and> 0 \<le> cx \<and> cx \<le> real_of_int (screen_width vm - 1)
             \<and> 0 \<le> cy \<and> cy \<le> real_of_int (screen_height vm - 1))"
proof -
  let ?tx = "np_clip
              (f_mul ops
                 (f_interp ops (real_of_int (fst pos)) (real_of_int (active_zone_margin vm))
                    (real_of_int (frame_width vm - active_zone_margin vm))
                    0 (real_of_int (screen_width vm)))
                 (sensitivity_x vm))
              0 (real_of_int (screen_width vm - 1))"
  let ?ty = "np_clip
              (f_mul ops
                 (f_interp ops (real_of_int (snd pos)) (real_of_int (active_zone_margin vm))
                    (real_of_int (frame_height vm - active_zone_margin vm))
                    0 (real_of_int (screen_height vm)))
                 (sensitivity_y vm))
              0 (real_of_int (screen_height vm - 1))"
  let ?cx = "f_add ops (mouse_prev_x vm) (f_div ops (f_sub ops ?tx (mouse_prev_x vm)) (smoothing vm))"
  let ?cy = "f_add ops (mouse_prev_y vm) (f_div ops (f_sub ops ?ty (mouse_prev_y vm)) (smoothing vm))"
  have eq: "get_cursor_position ops vm pos
        = ((py_int ?cx, py_int ?cy),
           vm\<lparr>curr_x := ?cx, curr_y := ?cy, mouse_prev_x := ?cx, mouse_prev_y := ?cy\<rparr>)"
    by (simp add: get_cursor_position_def cursor_target_def Let_def)
  have tx: "1 \<le> screen_width vm \<longrightarrow> 0 \<le> ?tx \<and> ?tx \<le> real_of_int (screen_width vm - 1)"
    by (intro impI np_clip_bounds) simp
  have ty: "1 \<le> screen_height vm \<longrightarrow> 0 \<le> ?ty \<and> ?ty \<le> real_of_int (screen_height vm - 1)"
    by (intro impI np_clip_bounds) simp
  have bounds: "smoothing_between ops \<and> 1 \<le> screen_width vm \<and> 1 \<le> screen_height vm
           \<and> screen_width vm \<le> 2 ^ 52 \<and> screen_height vm \<le> 2 ^ 52
           \<and> 1 \<le> smoothing vm
           \<and> 0 \<le> mouse_prev_x vm \<and> mouse_prev_x vm \<le> real_of_int (screen_width vm - 1)
           \<and> 0 \<le> mouse_prev_y vm \<and> mouse_prev_y vm \<le> real_of_int (screen_height vm - 1)
         \<longrightarrow> 0 \<le> py_int ?cx \<and> py_int ?cx \<le> screen_width vm - 1
             \<and> 0 \<le> py_int ?cy \<and> py_int ?cy \<le> screen_height vm - 1
             \<and> 0 \<le> ?cx \<and> ?cx \<le> real_of_int (screen_width vm - 1)
             \<and> 0 \<le> ?cy \<and> ?cy \<le> real_of_int (screen_height vm - 1)"
  proof
    assume a: "smoothing_between ops \<and> 1 \<le> screen_width vm \<and> 1 \<le> screen_height vm
           \<and> screen_width vm \<le> 2 ^ 52 \<and> screen_height vm \<le> 2 ^ 52
           \<and> 1 \<le> smoothing vm
           \<and> 0 \<le> mouse_prev_x vm \<and> mouse_prev_x vm \<le> real_of_int (screen_width vm - 1)
           \<and> 0 \<le> mouse_prev_y vm \<and> mouse_prev_y vm \<le> real_of_int (screen_height vm - 1)"
    then have sb: "\<And>p x s hi. 1 \<le> s \<and> hi < 2 ^ 52 \<and> 0 \<le> p \<and> p \<le> real_of_int hi
          \<and> 0 \<le> x \<and> x \<le> real_of_int hi
        \<Longrightarrow> 0 \<le> f_add ops p (f_div ops (f_sub ops x p) s)
            \<and> f_add ops p (f_div ops (f_sub ops x p) s) \<le> real_of_int hi"
      unfolding smoothing_between_def by blast
    have x: "0 \<le> ?tx \<and> ?tx \<le> real_of_int (screen_width vm - 1)"
      using tx a by simp
    have y: "0 \<le> ?ty \<and> ?ty \<le> real_of_int (screen_height vm - 1)"
      using ty a by simp
    have cx: "0 \<le> ?cx \<and> ?cx \<le> real_of_int (screen_width vm - 1)"
      using a x by (intro sb) simp
    have cy: "0 \<le> ?cy \<and> ?cy \<le> real_of_int (screen_height vm - 1)"
      using a y by (intro sb) simp
    have ix: "0 \<le> py_int ?cx \<and> py_int ?cx \<le> screen_width vm - 1"
      using cx by (intro py_int_bounds) simp_all
    have iy: "0 \<le> py_int ?cy \<and> py_int ?cy \<le> screen_height vm - 1"
      using cy by (intro py_int_bounds) simp_all
    from cx cy ix iy
    show "0 \<le> py_int ?cx \<and> py_int ?cx \<le> screen_width vm - 1
             \<and> 0 \<le> py_int ?cy \<and> py_int ?cy \<le> screen_height vm - 1
             \<and> 0 \<le> ?cx \<and> ?cx \<le> real_of_int (screen_width vm - 1)
             \<and> 0 \<le> ?cy \<and> ?cy \<le> real_of_int (screen_height vm - 1)"
      by simp
  qed
  from eq tx ty bounds show ?thesis unfolding Let_def by blast
qed

theorem get_cursor_position_clips_after_sensitivity_witness:
  "smoothing_between exact_ops
   \<and> 1 \<le> screen_width mouse_1080p \<and> 1 \<le> screen_height mouse_1080p
   \<and> screen_width mouse_1080p \<le> 2 ^ 52 \<and> screen_height mouse_1080p \<le> 2 ^ 52
   \<and> 1 \<le> smoothing mouse_1080p
   \<and> 0 \<le> mouse_prev_x mouse_1080p
   \<and> mouse_prev_x mouse_1080p \<le> real_of_int (screen_width mouse_1080p - 1)
   \<and> 0 \<le> mouse_prev_y mouse_1080p
   \<and> mouse_prev_y mouse_1080p \<le> real_of_int (screen_height mouse_1080p - 1)
   \<and> fst (get_cursor_position exact_ops mouse_1080p (1180, 620)) = (274, 154)
   \<and> 0 \<le> fst (fst (get_cursor_position exact_ops mouse_1080p (1180, 620)))
   \<and> fst (fst (get_cursor_position exact_ops mouse_1080p (1180, 620))) \<le> 1919
   \<and> 0 \<le> snd (fst (get_cursor_position exact_ops mouse_1080p (1180, 620)))
   \<and> snd (fst (get_cursor_position exact_ops mouse_1080p (1180, 620))) \<le> 1079"
proof -
  let ?m = mouse_1080p
  let ?tx = "np_clip
              (f_mul exact_ops
                 (f_interp exact_ops (real_of_int (fst (1180::int, 620::int)))
                    (real_of_int (active_zone_margin ?m))
                    (real_of_int (frame_width ?m - active_zone_margin ?m))
                    0 (real_of_int (screen_width ?m)))
                 (sensitivity_x ?m))
              0 (real_of_int (screen_width ?m - 1))"
  let ?ty = "np_clip
              (f_mul exact_ops
                 (f_interp exact_ops (real_of_int (snd (1180::int, 620::int)))
                    (real_of_int (active_zone_margin ?m))
                    (real_of_int (frame_height ?m - active_zone_margin ?m))
                    0 (real_of_int (screen_height ?m)))
                 (sensitivity_y ?m))
              0 (real_of_int (screen_height ?m - 1))"
  let ?cx = "f_add exact_ops (mouse_prev_x ?m)
               (f_div exact_ops (f_sub exact_ops ?tx (mouse_prev_x ?m)) (smoothing ?m))"
  let ?cy = "f_add exact_ops (mouse_prev_y ?m)
               (f_div exact_ops (f_sub exact_ops ?ty (mouse_prev_y ?m)) (smoothing ?m))"
  have s: "smoothing_between exact_ops" by (rule smoothing_between_exact)
  have h: "1 \<le> screen_width ?m" "1 \<le> screen_height ?m"
    "screen_width ?m \<le> 2 ^ 52" "screen_height ?m \<le> 2 ^ 52"
    "1 \<le> smoothing ?m" "0 \<le> mouse_prev_x ?m"
    "mouse_prev_x ?m \<le> real_of_int (screen_width ?m - 1)"
    "0 \<le> mouse_prev_y ?m"
    "mouse_prev_y ?m \<le> real_of_int (screen_height ?m - 1)"
    by (simp_all add: mouse_1080p_def VirtualMouse_init_def)
  have w: "screen_width ?m - 1 = 1919" "screen_height ?m - 1 = 1079"
    by (simp_all add: mouse_1080p_def VirtualMouse_init_def)
  note th = get_cursor_position_clips_after_sensitivity
              [where ops = exact_ops and vm = ?m and pos = "(1180, 620)", unfolded Let_def]
  from th have eq: "get_cursor_position exact_ops ?m (1180, 620)
        = ((py_int ?cx, py_int ?cy),
           ?m\<lparr>curr_x := ?cx, curr_y := ?cy, mouse_prev_x := ?cx, mouse_prev_y := ?cy\<rparr>)"
    by blast
  from th s h have b: "0 \<le> py_int ?cx \<and> py_int ?cx \<le> screen_width ?m - 1
             \<and> 0 \<le> py_int ?cy \<and> py_int ?cy \<le> screen_height ?m - 1"
    by blast
  have v: "fst (get_cursor_position exact_ops ?m (1180, 620)) = (274, 154)"
    by (simp add: get_cursor_position_def cursor_target_def exact_ops_def np_interp_def
        np_clip_def py_int_def mouse_1080p_def VirtualMouse_init_def Let_def)
  have c: "0 \<le> fst (fst (get_cursor_position exact_ops ?m (1180, 620)))
     \<and> fst (fst (get_cursor_position exact_ops ?m (1180, 620))) \<le> 1919
     \<and> 0 \<le> snd (fst (get_cursor_position exact_ops ?m (1180, 620)))
     \<and> snd (fst (get_cursor_position exact_ops ?m (1180, 620))) \<le> 1079"
    using b unfolding eq w by simp
  from s h v c show ?thesis by blast
qed

text \<open>
  C2 as stated fails: at the right edge of the active zone the code's target is 1919, the
  clipped product, where clamping before the multiplication gives 4797.5; the returned
  coordinates differ from those of the pipeline the claim describes.
\<close>

theorem sensitivity_then_clamp_counterexample:
  "cursor_target exact_ops 100 1280 1920 2.5 1180 = 1919
   \<and> spec_cursor_target exact_ops 100 1280 1920 2.5 1180 = 4797.5
   \<and> fst (get_cursor_position exact_ops mouse_1080p (1180, 620)) = (274, 154)
   \<and> fst (spec_get_cursor_position exact_ops mouse_1080p (1180, 620)) = (685, 385)"
  by (simp add: get_cursor_position_def spec_get_cursor_position_def mouse_1080p_def
      VirtualMouse_init_def cursor_target_def spec_cursor_target_def exact_ops_def np_interp_def
      np_clip_def py_int_def Let_def)

section \<open>The click debouncer\<close>

lemma hypot_less_iff: "0 \<le> t \<Longrightarrow> hypot dx dy < t \<longleftrightarrow> real_of_int (dx\<^sup>2 + dy\<^sup>2) < t\<^sup>2"
  unfolding hypot_def
  by (metis abs_of_nonneg real_sqrt_abs real_sqrt_less_iff)

lemma detect_left_click_fires_iff:
  "fst (detect_left_click vm lms now) \<longleftrightarrow>
     21 \<le> length lms \<and> now - last_click_time vm \<ge> click_cooldown vm
       \<and> hypot (lm_x (lms ! 4) - lm_x (lms ! 8)) (lm_y (lms ! 4) - lm_y (lms ! 8)) < click_threshold vm"
  by (auto simp: detect_left_click_def Let_def)

lemma detect_left_click_state:
  "snd (detect_left_click vm lms now) =
     (if fst (detect_left_click vm lms now) then vm\<lparr>last_click_time := now\<rparr> else vm)"
  by (auto simp: detect_left_click_def Let_def)

lemma detect_left_click_cooldown:
  "click_cooldown (snd (detect_left_click vm lms now)) = click_cooldown vm"
  by (simp add: detect_left_click_state)

lemma left_click_times_after_last:
  assumes "0 \<le> click_cooldown vm"
  shows "\<forall>t \<in> set (left_click_times vm frames). t - last_click_time vm \<ge> click_cooldown vm"
  using assms
proof (induction frames arbitrary: vm)
  case Nil show ?case by simp
next
  case (Cons frame frames)
  let ?r = "detect_left_click vm (fst frame) (snd frame)"
  have cd: "click_cooldown (snd ?r) = click_cooldown vm" by (rule detect_left_click_cooldown)
  then have ih: "\<forall>t \<in> set (left_click_times (snd ?r) frames).
                    t - last_click_time (snd ?r) \<ge> click_cooldown vm"
    using Cons.IH[of "snd ?r"] Cons.prems by simp
  show ?case
  proof (cases "fst ?r")
    case True
    then have now: "snd frame - last_click_time vm \<ge> click_cooldown vm"
      by (simp add: detect_left_click_fires_iff)
    have st: "last_click_time (snd ?r) = snd frame" using True by (simp add: detect_left_click_state)
    show ?thesis using True now ih st Cons.prems by (auto simp: Let_def)
  next
    case False
    then have "snd ?r = vm" by (simp add: detect_left_click_state)
    then show ?thesis using False ih by (simp add: Let_def)
  qed
qed

lemma left_click_times_spaced:
  assumes "0 \<le> click_cooldown vm"
  shows "sorted_wrt (\<lambda>a b. b - a \<ge> click_cooldown vm) (left_click_times vm frames)"
  using assms
proof (induction frames arbitrary: vm)
  case Nil show ?case by simp
next
  case (Cons frame frames)
  let ?r = "detect_left_click vm (fst frame) (snd frame)"
  have cd: "click_cooldown (snd ?r) = click_cooldown vm" by (rule detect_left_click_cooldown)
  have ih: "sorted_wrt (\<lambda>a b. b - a \<ge> click_cooldown vm) (left_click_times (snd ?r) frames)"
    using Cons.IH[of "snd ?r"] Cons.prems cd by simp
  show ?case
  proof (cases "fst ?r")
    case True
    have st: "last_click_time (snd ?r) = snd frame" using True by (simp add: detect_left_click_state)
    have "\<forall>t \<in> set (left_click_times (snd ?r) frames). t - snd frame \<ge> click_cooldown vm"
      using left_click_times_after_last[of "snd ?r" frames] Cons.prems cd st by simp
    then show ?thesis using True ih by (simp add: Let_def)
  next
    case False
    then show ?thesis using ih by (simp add: Let_def)
  qed
qed

lemma sorted_wrt_nth: "sorted_wrt P xs \<Longrightarrow> i < j \<Longrightarrow> j < length xs \<Longrightarrow> P (xs ! i) (xs ! j)"
  by (simp add: sorted_wrt_iff_nth_less)

lemma pinch_example:
  assumes "click_cooldown vm = 0.3" and "0 < click_threshold vm"
    and "t0 - last_click_time vm \<ge> 0.3"
  shows "left_click_times vm [(pinch_hand, t0), (pinch_hand, t0 + 0.2), (pinch_hand, t0 + 0.35)]
           = [t0, t0 + 0.35]"
proof -
  have d: "hypot (lm_x (pinch_hand ! 4) - lm_x (pinch_hand ! 8)) (lm_y (pinch_hand ! 4) - lm_y (pinch_hand ! 8)) = 0"
    by (simp add: pinch_hand_def hypot_def lm_x_def lm_y_def)
  have l: "length pinch_hand = 21" by (simp add: pinch_hand_def)
  have f1: "detect_left_click vm pinch_hand t0 = (True, vm\<lparr>last_click_time := t0\<rparr>)"
    using assms d l by (simp add: detect_left_click_def Let_def)
  have f2: "detect_left_click (vm\<lparr>last_click_time := t0\<rparr>) pinch_hand (t0 + 0.2)
             = (False, vm\<lparr>last_click_time := t0\<rparr>)"
    using assms d l by (simp add: detect_left_click_def Let_def)
  have f3: "detect_left_click (vm\<lparr>last_click_time := t0\<rparr>) pinch_hand (t0 + 0.35)
             = (True, vm\<lparr>last_click_time := t0 + 0.35\<rparr>)"
    using assms d l by (simp add: detect_left_click_def Let_def)
  show ?thesis
    by (simp only: left_click_times.simps Let_def f1 f2 f3 fst_conv snd_conv if_True if_False
        append.simps)
qed

text \<open>
  C6. \<open>detect_left_click\<close> returns \<open>True\<close> exactly when the hand is complete, the time
  since \<open>last_click_time\<close> is at least the cooldown and the distance from thumb tip to
  index tip is strictly below the threshold; it then sets \<open>last_click_time\<close> to the clock
  reading and otherwise leaves the state alone. With a non-negative cooldown, any two
  clicks fired in a sequence of calls are at least one cooldown apart. With cooldown 0.3 and
  a first pinch at \<open>t0\<close> that is itself out of the cooldown, pinches at \<open>t0\<close> and
  \<open>t0 + 0.2\<close> give one click and the pinch at \<open>t0 + 0.35\<close> gives the second.
\<close>

theorem detect_left_click_debounced:
  assumes "0 \<le> click_cooldown vm"
  shows "(fst (detect_left_click vm lms now) \<longleftrightarrow>
            21 \<le> length lms \<and> now - last_click_time vm \<ge> click_cooldown vm
            \<and> hypot (lm_x (lms ! 4) - lm_x (lms ! 8)) (lm_y (lms ! 4) - lm_y (lms ! 8))
                < click_threshold vm)
       \<and> snd (detect_left_click vm lms now)
           = (if fst (detect_left_click vm lms now) then vm\<lparr>last_click_time := now\<rparr> else vm)
       \<and> (\<forall>i j. i < j \<and> j < length (left_click_times vm frames) \<longrightarrow>
             left_click_times vm frames ! j - left_click_times vm frames ! i \<ge> click_cooldown vm)
       \<and> (click_cooldown vm = 0.3 \<and> 0 < click_threshold vm \<and> t0 - last_click_time vm \<ge> 0.3 \<longrightarrow>
             left_click_times vm
               [(pinch_hand, t0), (pinch_hand, t0 + 0.2), (pinch_hand, t0 + 0.35)]
             = [t0, t0 + 0.35])"
proof (intro conjI)
  show "fst (detect_left_click vm lms now) \<longleftrightarrow>
            21 \<le> length lms \<and> now - last_click_time vm \<ge> click_cooldown vm
            \<and> hypot (lm_x (lms ! 4) - lm_x (lms ! 8)) (lm_y (lms ! 4) - lm_y (lms ! 8))
                < click_threshold vm"
    by (rule detect_left_click_fires_iff)
  show "snd (detect_left_click vm lms now)
           = (if fst (detect_left_click vm lms now) then vm\<lparr>last_click_time := now\<rparr> else vm)"
    by (rule detect_left_click_state)
  show "\<forall>i j. i < j \<and> j < length (left_click_times vm frames) \<longrightarrow>
             left_click_times vm frames ! j - left_click_times vm frames ! i \<ge> click_cooldown vm"
    using sorted_wrt_nth[OF left_click_times_spaced[OF assms, of frames]] by blast
  show "click_cooldown vm = 0.3 \<and> 0 < click_threshold vm \<and> t0 - last_click_time vm \<ge> 0.3 \<longrightarrow>
             left_click_times vm
               [(pinch_hand, t0), (pinch_hand, t0 + 0.2), (pinch_hand, t0 + 0.35)]
             = [t0, t0 + 0.35]"
    using pinch_example by blast
qed

theorem detect_left_click_debounced_witness:
  "0 \<le> click_cooldown mouse_1080p
   \<and> fst (detect_left_click mouse_1080p pinch_hand 1000)
   \<and> snd (detect_left_click mouse_1080p pinch_hand 1000) = mouse_1080p\<lparr>last_click_time := 1000\<rparr>
   \<and> left_click_times mouse_1080p
        [(pinch_hand, 1000), (pinch_hand, 1000 + 0.2), (pinch_hand, 1000 + 0.35)]
      = [1000, 1000 + 0.35]
   \<and> [1000, 1000 + 0.35] ! 1 - [1000, 1000 + 0.35] ! 0 \<ge> click_cooldown mouse_1080p"
proof -
  let ?fr = "[(pinch_hand, 1000), (pinch_hand, 1000 + 0.2), (pinch_hand, 1000 + 0.35)]
               :: (landmark list \<times> real) list"
  have h: "0 \<le> click_cooldown mouse_1080p" by (simp add: mouse_1080p_def VirtualMouse_init_def)
  note th = detect_left_click_debounced[OF h, of pinch_hand 1000 ?fr 1000]
  have l: "21 \<le> length pinch_hand" by (simp add: pinch_hand_def)
  have t: "1000 - last_click_time mouse_1080p \<ge> click_cooldown mouse_1080p"
    by (simp add: mouse_1080p_def VirtualMouse_init_def)
  have d: "hypot (lm_x (pinch_hand ! 4) - lm_x (pinch_hand ! 8))
             (lm_y (pinch_hand ! 4) - lm_y (pinch_hand ! 8)) < click_threshold mouse_1080p"
    by (simp add: pinch_hand_def hypot_def lm_x_def lm_y_def mouse_1080p_def VirtualMouse_init_def)
  have c1: "fst (detect_left_click mouse_1080p pinch_hand 1000)" using th l t d by blast
  have c2: "snd (detect_left_click mouse_1080p pinch_hand 1000) = mouse_1080p\<lparr>last_click_time := 1000\<rparr>"
    using th c1 by simp
  have e: "click_cooldown mouse_1080p = 0.3" "0 < click_threshold mouse_1080p"
    "1000 - last_click_time mouse_1080p \<ge> 0.3"
    by (simp_all add: mouse_1080p_def VirtualMouse_init_def)
  have c3: "left_click_times mouse_1080p ?fr = [1000, 1000 + 0.35]" using th e by blast
  have ij: "(0::nat) < 1 \<and> 1 < length (left_click_times mouse_1080p ?fr)" unfolding c3 by simp
  have "left_click_times mouse_1080p ?fr ! 1 - left_click_times mouse_1080p ?fr ! 0
          \<ge> click_cooldown mouse_1080p"
    using th ij by blast
  then have c4: "[1000, 1000 + 0.35] ! 1 - [1000, 1000 + 0.35] ! 0 \<ge> click_cooldown mouse_1080p"
    unfolding c3 .
  from h c1 c2 c3 c4 show ?thesis by blast
qed

section \<open>The scroll anchor\<close>

lemma get_cursor_position_keeps:
  "scroll_start_y (snd (get_cursor_position ops vm p)) = scroll_start_y vm"
  "last_click_time (snd (get_cursor_position ops vm p)) = last_click_time vm"
  "click_cooldown (snd (get_cursor_position ops vm p)) = click_cooldown vm"
  by (simp_all add: get_cursor_position_def Let_def)

lemma detect_left_click_keeps:
  "scroll_start_y (snd (detect_left_click vm lms now)) = scroll_start_y vm"
  by (simp add: detect_left_click_state)

lemma perform_scroll_keeps:
  "last_click_time (fst (perform_scroll vm y)) = last_click_time vm"
  "click_cooldown (fst (perform_scroll vm y)) = click_cooldown vm"
  "filter is_click (snd (perform_scroll vm y)) = []"
  by (simp_all add: perform_scroll_def Let_def)

lemma bind_err_Inr:
  "bind_err m f = Inr r \<longleftrightarrow> (\<exists>v. m = Inr v \<and> f v = Inr r)"
  by (cases m) (simp_all add: bind_err_def)

lemma mouse_frame_not_fist_resets:
  assumes "mouse_frame ops vm lms now = Inr (vm', evs)"
    and "\<not> (lms \<noteq> [] \<and> (\<exists>f. fingers_up lms = Inr f \<and> detect_scroll_mode f))"
  shows "scroll_start_y vm' = 0"
proof (cases "lms = []")
  case True
  with assms(1) show ?thesis by (auto simp: mouse_frame_def)
next
  case False
  with assms(1) obtain fingers p8 where
    f: "fingers_up lms = Inr fingers" and p8: "py_index lms 8 = Inr p8"
    by (auto simp: mouse_frame_def bind_err_Inr)
  have ns: "\<not> detect_scroll_mode fingers" using assms(2) False f by simp
  show ?thesis
  proof (cases "detect_right_click fingers")
    case True
    with assms(1) False f p8 ns show ?thesis
      by (auto simp: mouse_frame_def bind_err_def Let_def split: if_splits)
  next
    case nr: False
    with assms(1) False f p8 ns obtain index_up where
      iu: "py_index fingers 1 = Inr index_up"
      by (auto simp: mouse_frame_def bind_err_def Let_def split: sum.splits)
    show ?thesis
    proof (cases index_up)
      case True
      with assms(1) False f p8 ns nr iu show ?thesis
        by (auto simp: mouse_frame_def bind_err_def Let_def split_beta
            get_cursor_position_keeps detect_left_click_keeps)
    next
      case False
      with assms(1) \<open>lms \<noteq> []\<close> f p8 ns nr iu show ?thesis
        by (auto simp: mouse_frame_def bind_err_def Let_def)
    qed
  qed
qed

text \<open>
  C5 (as amended). A frame of the loop that is not a fist leaves \<open>scroll_start_y = 0\<close>, and
  0 is the value that \<open>perform_scroll\<close> reads as "no anchor": with \<open>scroll_start_y = 0\<close> it
  records the current y and emits nothing. The sentinel is therefore not distinct from the
  coordinate 0: after a fist is entered at \<open>current_y = 0\<close> the next fist frame records
  its own y as the anchor and emits nothing. With an anchor other than 0, a fist frame
  more than 20 pixels away scrolls by the truncated tenth of the displacement and moves
  the anchor; a frame within 20 pixels changes nothing.
\<close>

theorem scroll_anchor_zero_is_unset:
  "(mouse_frame ops vm lms now = Inr (vm', evs)
      \<and> \<not> (lms \<noteq> [] \<and> (\<exists>f. fingers_up lms = Inr f \<and> detect_scroll_mode f))
      \<longrightarrow> scroll_start_y vm' = 0)
   \<and> perform_scroll (vm\<lparr>scroll_start_y := 0\<rparr>) y = (vm\<lparr>scroll_start_y := y\<rparr>, [])
   \<and> perform_scroll (fst (perform_scroll (vm\<lparr>scroll_start_y := 0\<rparr>) 0)) y
        = (vm\<lparr>scroll_start_y := y\<rparr>, [])
   \<and> (a \<noteq> 0 \<and> \<bar>a - y\<bar> > 20 \<longrightarrow>
        perform_scroll (vm\<lparr>scroll_start_y := a\<rparr>) y
          = (vm\<lparr>scroll_start_y := y\<rparr>, [Scroll (py_int (real_of_int (a - y) / 10))]))
   \<and> (a \<noteq> 0 \<and> \<bar>a - y\<bar> \<le> 20 \<longrightarrow>
        perform_scroll (vm\<lparr>scroll_start_y := a\<rparr>) y = (vm\<lparr>scroll_start_y := a\<rparr>, []))"
proof (intro conjI impI)
  assume "mouse_frame ops vm lms now = Inr (vm', evs)
      \<and> \<not> (lms \<noteq> [] \<and> (\<exists>f. fingers_up lms = Inr f \<and> detect_scroll_mode f))"
  then show "scroll_start_y vm' = 0" using mouse_frame_not_fist_resets by blast
next
  show "perform_scroll (vm\<lparr>scroll_start_y := 0\<rparr>) y = (vm\<lparr>scroll_start_y := y\<rparr>, [])"
    by (simp add: perform_scroll_def)
next
  show "perform_scroll (fst (perform_scroll (vm\<lparr>scroll_start_y := 0\<rparr>) 0)) y
        = (vm\<lparr>scroll_start_y := y\<rparr>, [])"
    by (simp add: perform_scroll_def)
next
  assume "a \<noteq> 0 \<and> \<bar>a - y\<bar> > 20"
  then show "perform_scroll (vm\<lparr>scroll_start_y := a\<rparr>) y
          = (vm\<lparr>scroll_start_y := y\<rparr>, [Scroll (py_int (real_of_int (a - y) / 10))])"
    by (simp add: perform_scroll_def Let_def)
next
  assume "a \<noteq> 0 \<and> \<bar>a - y\<bar> \<le> 20"
  then show "perform_scroll (vm\<lparr>scroll_start_y := a\<rparr>) y = (vm\<lparr>scroll_start_y := a\<rparr>, [])"
    by (simp add: perform_scroll_def Let_def)
qed

theorem scroll_anchor_zero_is_unset_witness:
  "mouse_frame exact_ops (mouse_1080p\<lparr>scroll_start_y := 300\<rparr>) [] 1000
      = Inr (mouse_1080p\<lparr>scroll_start_y := 0\<rparr>, [])
   \<and> scroll_start_y (mouse_1080p\<lparr>scroll_start_y := 0\<rparr>) = 0
   \<and> perform_scroll (mouse_1080p\<lparr>scroll_start_y := 0\<rparr>) 300
        = (mouse_1080p\<lparr>scroll_start_y := 300\<rparr>, [])
   \<and> perform_scroll (mouse_1080p\<lparr>scroll_start_y := 300\<rparr>) 270
        = (mouse_1080p\<lparr>scroll_start_y := 270\<rparr>, [Scroll 3])
   \<and> perform_scroll (mouse_1080p\<lparr>scroll_start_y := 300\<rparr>) 290
        = (mouse_1080p\<lparr>scroll_start_y := 300\<rparr>, [])"
proof -
  let ?m = "mouse_1080p"
  have f: "mouse_frame exact_ops (?m\<lparr>scroll_start_y := 300\<rparr>) [] 1000 = Inr (?m\<lparr>scroll_start_y := 0\<rparr>, [])"
    by (simp add: mouse_frame_def mouse_1080p_def VirtualMouse_init_def)
  have nf: "\<not> (([]::landmark list) \<noteq> [] \<and> (\<exists>f. fingers_up [] = Inr f \<and> detect_scroll_mode f))"
    by simp
  have c1: "scroll_start_y (?m\<lparr>scroll_start_y := 0\<rparr>) = 0"
    using scroll_anchor_zero_is_unset[where vm = "?m\<lparr>scroll_start_y := 300\<rparr>"
        and lms = "[]" and now = 1000 and vm' = "?m\<lparr>scroll_start_y := 0\<rparr>" and evs = "[]"]
      f nf by blast
  have c2: "perform_scroll (?m\<lparr>scroll_start_y := 0\<rparr>) 300 = (?m\<lparr>scroll_start_y := 300\<rparr>, [])"
    using scroll_anchor_zero_is_unset[where vm = ?m and y = 300 and a = 300] by blast
  have a1: "(300::int) \<noteq> 0 \<and> \<bar>300 - 270\<bar> > (20::int)" by simp
  have a2: "(300::int) \<noteq> 0 \<and> \<bar>300 - 290\<bar> \<le> (20::int)" by simp
  have p: "py_int (real_of_int (300 - 270) / 10) = 3" by (simp add: py_int_def)
  have c3: "perform_scroll (?m\<lparr>scroll_start_y := 300\<rparr>) 270
        = (?m\<lparr>scroll_start_y := 270\<rparr>, [Scroll (py_int (real_of_int (300 - 270) / 10))])"
    using scroll_anchor_zero_is_unset[where vm = ?m and y = 270 and a = 300] a1 by blast
  have c4: "perform_scroll (?m\<lparr>scroll_start_y := 300\<rparr>) 290 = (?m\<lparr>scroll_start_y := 300\<rparr>, [])"
    using scroll_anchor_zero_is_unset[where vm = ?m and y = 290 and a = 300] a2 by blast
  from f c1 c2 c3 c4 show ?thesis unfolding p by blast
qed

text \<open>
  C5 as stated fails: a fist entered at \<open>current_y = 0\<close> leaves the anchor at 0, and the
  next fist frame at \<open>y = 100\<close> is taken as a new anchor with no scroll, where an anchor
  held at a neighbouring coordinate (1) scrolls by -9.
\<close>

theorem scroll_anchor_at_zero_counterexample:
  "perform_scroll mouse_1080p 0 = (mouse_1080p, [])
   \<and> perform_scroll (fst (perform_scroll mouse_1080p 0)) 100
        = (mouse_1080p\<lparr>scroll_start_y := 100\<rparr>, [])
   \<and> perform_scroll (mouse_1080p\<lparr>scroll_start_y := 1\<rparr>) 100
        = (mouse_1080p\<lparr>scroll_start_y := 100\<rparr>, [Scroll (- 9)])"
  by (simp add: perform_scroll_def mouse_1080p_def VirtualMouse_init_def py_int_def Let_def)

section \<open>Left and right clicks\<close>

lemma mouse_frame_clicks:
  assumes "mouse_frame ops vm lms now = Inr (vm', evs)"
  shows "click_cooldown vm' = click_cooldown vm
       \<and> ((filter is_click evs = [] \<and> last_click_time vm' = last_click_time vm)
          \<or> (\<exists>e. filter is_click evs = [e] \<and> now - last_click_time vm \<ge> click_cooldown vm
                \<and> last_click_time vm' = now))"
proof (cases "lms = []")
  case True
  with assms show ?thesis by (auto simp: mouse_frame_def)
next
  case False
  with assms obtain fingers p8 where
    f: "fingers_up lms = Inr fingers" and p8: "py_index lms 8 = Inr p8"
    by (auto simp: mouse_frame_def bind_err_Inr)
  show ?thesis
  proof (cases "detect_scroll_mode fingers")
    case True
    with assms False f p8 have
      "(vm', evs) = perform_scroll (vm\<lparr>scroll_mode := True\<rparr>) (lm_y p8)"
      by (simp add: mouse_frame_def bind_err_def Let_def)
    then have "vm' = fst (perform_scroll (vm\<lparr>scroll_mode := True\<rparr>) (lm_y p8))"
      "evs = snd (perform_scroll (vm\<lparr>scroll_mode := True\<rparr>) (lm_y p8))"
      by (metis fst_conv, metis snd_conv)
    then show ?thesis by (simp add: perform_scroll_keeps)
  next
    case ns: False
    show ?thesis
    proof (cases "detect_right_click fingers")
      case True
      with assms False f p8 ns show ?thesis
        by (auto simp: mouse_frame_def bind_err_def Let_def split: if_splits)
    next
      case nr: False
      with assms False f p8 ns obtain index_up where
        iu: "py_index fingers 1 = Inr index_up"
        by (auto simp: mouse_frame_def bind_err_def Let_def split: sum.splits)
      show ?thesis
      proof (cases index_up)
        case True
        let ?m1 = "vm\<lparr>scroll_mode := False, scroll_start_y := 0\<rparr>"
        let ?g = "get_cursor_position ops ?m1 (lm_x p8, lm_y p8)"
        let ?d = "detect_left_click (snd ?g) lms now"
        from assms \<open>lms \<noteq> []\<close> f p8 ns nr iu True have
          vm': "vm' = snd ?d" and
          evs: "evs = MoveTo (fst (fst ?g)) (snd (fst ?g)) # (if fst ?d then [LeftClick] else [])"
          by (auto simp: mouse_frame_def bind_err_def Let_def split_beta)
        have lg: "last_click_time (snd ?g) = last_click_time vm"
          and cg: "click_cooldown (snd ?g) = click_cooldown vm"
          by (simp_all add: get_cursor_position_keeps)
        show ?thesis
        proof (cases "fst ?d")
          case True
          then have "now - last_click_time (snd ?g) \<ge> click_cooldown (snd ?g)"
            by (simp add: detect_left_click_fires_iff)
          moreover have "snd ?d = (snd ?g)\<lparr>last_click_time := now\<rparr>"
            using True by (simp add: detect_left_click_state)
          ultimately show ?thesis using True vm' evs lg cg by simp
        next
          case False
          then have "snd ?d = snd ?g" by (simp add: detect_left_click_state)
          then show ?thesis using False vm' evs lg cg by simp
        qed
      next
        case False
        with assms \<open>lms \<noteq> []\<close> f p8 ns nr iu show ?thesis
          by (auto simp: mouse_frame_def bind_err_def Let_def)
      qed
    qed
  qed
qed

lemma mouse_run_Cons:
  assumes "mouse_run ops vm (frame # frames) = Inr (vm'', evs)"
  shows "\<exists>vm1 e1 rest. mouse_frame ops vm (fst frame) (snd frame) = Inr (vm1, e1)
           \<and> mouse_run ops vm1 frames = Inr (vm'', rest)
           \<and> evs = map (\<lambda>e. (snd frame, e)) e1 @ rest"
  using assms by (auto simp: bind_err_Inr)

lemma click_events_frame:
  "click_events (map (\<lambda>e. (t, e)) es) = map (\<lambda>e. (t, e)) (filter is_click es)"
  by (induction es) (simp_all add: click_events_def)

lemma click_events_append: "click_events (xs @ ys) = click_events xs @ click_events ys"
  by (simp add: click_events_def)

lemma mouse_run_after_last:
  assumes "0 \<le> click_cooldown vm" and "mouse_run ops vm frames = Inr (vm', evs)"
  shows "\<forall>te \<in> set (click_events evs). fst te - last_click_time vm \<ge> click_cooldown vm"
  using assms
proof (induction frames arbitrary: vm evs)
  case Nil then show ?case by (simp add: click_events_def)
next
  case (Cons frame frames)
  from mouse_run_Cons[OF Cons.prems(2)] obtain vm1 e1 rest where
    fr: "mouse_frame ops vm (fst frame) (snd frame) = Inr (vm1, e1)"
    and run: "mouse_run ops vm1 frames = Inr (vm', rest)"
    and evs: "evs = map (\<lambda>e. (snd frame, e)) e1 @ rest" by blast
  from mouse_frame_clicks[OF fr] have cd: "click_cooldown vm1 = click_cooldown vm"
    and cases: "(filter is_click e1 = [] \<and> last_click_time vm1 = last_click_time vm)
          \<or> (\<exists>e. filter is_click e1 = [e] \<and> snd frame - last_click_time vm \<ge> click_cooldown vm
                \<and> last_click_time vm1 = snd frame)" by simp_all
  have ih: "\<forall>te \<in> set (click_events rest). fst te - last_click_time vm1 \<ge> click_cooldown vm"
    using Cons.IH[OF _ run] Cons.prems(1) cd by simp
  from cases show ?case
  proof
    assume "filter is_click e1 = [] \<and> last_click_time vm1 = last_click_time vm"
    then show ?thesis using ih by (simp add: evs click_events_append click_events_frame)
  next
    assume "\<exists>e. filter is_click e1 = [e] \<and> snd frame - last_click_time vm \<ge> click_cooldown vm
                \<and> last_click_time vm1 = snd frame"
    then obtain e where e: "filter is_click e1 = [e]"
      "snd frame - last_click_time vm \<ge> click_cooldown vm" "last_click_time vm1 = snd frame"
      by blast
    have "\<forall>te \<in> set (click_events rest). fst te - last_click_time vm \<ge> click_cooldown vm"
    proof
      fix te assume "te \<in> set (click_events rest)"
      then have "fst te - snd frame \<ge> click_cooldown vm" using ih e(3) by simp
      then show "fst te - last_click_time vm \<ge> click_cooldown vm"
        using e(2) Cons.prems(1) by linarith
    qed
    then show ?thesis using e by (simp add: evs click_events_append click_events_frame)
  qed
qed

lemma mouse_run_spaced:
  assumes "0 \<le> click_cooldown vm" and "mouse_run ops vm frames = Inr (vm', evs)"
  shows "sorted_wrt (\<lambda>a b. fst b - fst a \<ge> click_cooldown vm) (click_events evs)"
  using assms
proof (induction frames arbitrary: vm evs)
  case Nil then show ?case by (simp add: click_events_def)
next
  case (Cons frame frames)
  from mouse_run_Cons[OF Cons.prems(2)] obtain vm1 e1 rest where
    fr: "mouse_frame ops vm (fst frame) (snd frame) = Inr (vm1, e1)"
    and run: "mouse_run ops vm1 frames = Inr (vm', rest)"
    and evs: "evs = map (\<lambda>e. (snd frame, e)) e1 @ rest" by blast
  from mouse_frame_clicks[OF fr] have cd: "click_cooldown vm1 = click_cooldown vm"
    and cases: "(filter is_click e1 = [] \<and> last_click_time vm1 = last_click_time vm)
          \<or> (\<exists>e. filter is_click e1 = [e] \<and> snd frame - last_click_time vm \<ge> click_cooldown vm
                \<and> last_click_time vm1 = snd frame)" by simp_all
  have c1: "0 \<le> click_cooldown vm1" using Cons.prems(1) cd by simp
  have ih: "sorted_wrt (\<lambda>a b. fst b - fst a \<ge> click_cooldown vm) (click_events rest)"
    using Cons.IH[OF c1 run] cd by simp
  from cases show ?case
  proof
    assume "filter is_click e1 = [] \<and> last_click_time vm1 = last_click_time vm"
    then show ?thesis using ih by (simp add: evs click_events_append click_events_frame)
  next
    assume "\<exists>e. filter is_click e1 = [e] \<and> snd frame - last_click_time vm \<ge> click_cooldown vm
                \<and> last_click_time vm1 = snd frame"
    then obtain e where e: "filter is_click e1 = [e]" "last_click_time vm1 = snd frame"
      by blast
    have "\<forall>te \<in> set (click_events rest). fst te - snd frame \<ge> click_cooldown vm"
      using mouse_run_after_last[OF c1 run] cd e(2) by simp
    then show ?thesis using e ih by (simp add: evs click_events_append click_events_frame)
  qed
qed

text \<open>
  C10. In every run of the loop of \<open>main\<close> that raises no exception, with a non-negative
  cooldown, any two click calls, left or right in either order, come from frames whose
  clock readings are at least one cooldown apart: after a right click at \<open>t\<close> no left
  click fires before \<open>t + cooldown\<close>, and after a left click no right click fires before
  the cooldown has elapsed.
\<close>

theorem clicks_share_one_cooldown:
  assumes "0 \<le> click_cooldown vm" and "mouse_run ops vm frames = Inr (vm', evs)"
  shows "\<forall>i j. i < j \<and> j < length (click_events evs) \<longrightarrow>
           fst (click_events evs ! j) - fst (click_events evs ! i) \<ge> click_cooldown vm"
  using sorted_wrt_nth[OF mouse_run_spaced[OF assms]] by blast

lemma fingers_open: "fingers_up open_palm_hand = Inr [True, True, True, True, True]"
  by (simp add: fingers_up_def open_palm_hand_def py_index_def bind_err_def lm_x_def lm_y_def)

lemma fingers_point: "fingers_up pointing_pinch_hand = Inr [False, True, False, False, False]"
  by (simp add: fingers_up_def pointing_pinch_hand_def py_index_def bind_err_def lm_x_def lm_y_def)

lemma frame_open:
  "mouse_frame exact_ops mouse_1080p open_palm_hand 1000
     = Inr (mouse_1080p\<lparr>last_click_time := 1000\<rparr>, [RightClick])"
proof -
  have p: "py_index open_palm_hand 8 = Inr (8, 10, 0)" "open_palm_hand \<noteq> []"
    by (simp_all add: open_palm_hand_def py_index_def)
  have t: "1000 - last_click_time mouse_1080p > click_cooldown mouse_1080p"
    by (simp add: mouse_1080p_def VirtualMouse_init_def)
  have m: "mouse_1080p\<lparr>scroll_mode := False, scroll_start_y := 0\<rparr> = mouse_1080p"
    by (simp add: mouse_1080p_def VirtualMouse_init_def)
  show ?thesis
    using t by (simp add: mouse_frame_def fingers_open p m bind_err_def Let_def
        detect_scroll_mode_def detect_right_click_def)
qed

lemma cursor_corner:
  "get_cursor_position exact_ops (mouse_1080p\<lparr>last_click_time := t\<rparr>) (10, 0)
     = ((0, 0), mouse_1080p\<lparr>last_click_time := t\<rparr>)"
  by (simp add: get_cursor_position_def cursor_target_def exact_ops_def np_interp_def np_clip_def
      py_int_def mouse_1080p_def VirtualMouse_init_def)

lemma point_facts:
  "length pointing_pinch_hand = 21"
  "py_index pointing_pinch_hand 8 = Inr (8, 10, 0)"
  "hypot (lm_x (pointing_pinch_hand ! 4) - lm_x (pointing_pinch_hand ! 8))
         (lm_y (pointing_pinch_hand ! 4) - lm_y (pointing_pinch_hand ! 8)) = 10"
  by (simp_all add: pointing_pinch_hand_def py_index_def hypot_def lm_x_def lm_y_def)

lemma frame_point_early:
  "mouse_frame exact_ops (mouse_1080p\<lparr>last_click_time := 1000\<rparr>) pointing_pinch_hand (1000 + 0.1)
     = Inr (mouse_1080p\<lparr>last_click_time := 1000\<rparr>, [MoveTo 0 0])"
proof -
  have d: "detect_left_click (mouse_1080p\<lparr>last_click_time := 1000\<rparr>) pointing_pinch_hand (1000 + 0.1)
             = (False, mouse_1080p\<lparr>last_click_time := 1000\<rparr>)"
    by (simp add: detect_left_click_def point_facts Let_def mouse_1080p_def VirtualMouse_init_def)
  have m: "mouse_1080p\<lparr>last_click_time := 1000, scroll_mode := False, scroll_start_y := 0\<rparr>
            = mouse_1080p\<lparr>last_click_time := 1000\<rparr>"
    by (simp add: mouse_1080p_def VirtualMouse_init_def)
  have ne: "pointing_pinch_hand \<noteq> []" using point_facts(1) by auto
  have g: "lm_x (8, 10, 0) = 10" "lm_y (8, 10, 0) = 0" by (simp_all add: lm_x_def lm_y_def)
  have s: "\<not> detect_scroll_mode [False, True, False, False, False]"
    "\<not> detect_right_click [False, True, False, False, False]"
    "py_index [False, True, False, False, False] 1 = Inr True"
    by (simp_all add: detect_scroll_mode_def detect_right_click_def py_index_def)
  show ?thesis
    unfolding mouse_frame_def
    by (simp only: fingers_point point_facts bind_err_def sum.case Let_def m cursor_corner d
        g s ne fst_conv snd_conv split_conv if_True if_False length_0_conv not_False_eq_True
        not_True_eq_False simp_thms append.simps)
       simp
qed

lemma frame_point_late:
  "mouse_frame exact_ops (mouse_1080p\<lparr>last_click_time := 1000\<rparr>) pointing_pinch_hand (1000 + 0.4)
     = Inr (mouse_1080p\<lparr>last_click_time := 1000 + 0.4\<rparr>, [MoveTo 0 0, LeftClick])"
proof -
  have d: "detect_left_click (mouse_1080p\<lparr>last_click_time := 1000\<rparr>) pointing_pinch_hand (1000 + 0.4)
             = (True, mouse_1080p\<lparr>last_click_time := 1000 + 0.4\<rparr>)"
    by (simp add: detect_left_click_def point_facts Let_def mouse_1080p_def VirtualMouse_init_def)
  have m: "mouse_1080p\<lparr>last_click_time := 1000, scroll_mode := False, scroll_start_y := 0\<rparr>
            = mouse_1080p\<lparr>last_click_time := 1000\<rparr>"
    by (simp add: mouse_1080p_def VirtualMouse_init_def)
  have ne: "pointing_pinch_hand \<noteq> []" using point_facts(1) by auto
  have g: "lm_x (8, 10, 0) = 10" "lm_y (8, 10, 0) = 0" by (simp_all add: lm_x_def lm_y_def)
  have s: "\<not> detect_scroll_mode [False, True, False, False, False]"
    "\<not> detect_right_click [False, True, False, False, False]"
    "py_index [False, True, False, False, False] 1 = Inr True"
    by (simp_all add: detect_scroll_mode_def detect_right_click_def py_index_def)
  show ?thesis
    unfolding mouse_frame_def
    by (simp only: fingers_point point_facts bind_err_def sum.case Let_def m cursor_corner d
        g s ne fst_conv snd_conv split_conv if_True if_False length_0_conv not_False_eq_True
        not_True_eq_False simp_thms append.simps)
       simp
qed

lemma right_then_left_run:
  "mouse_run exact_ops mouse_1080p right_then_left_frames
     = Inr (mouse_1080p\<lparr>last_click_time := 1000 + 0.4\<rparr>,
            [(1000, RightClick), (1000 + 0.1, MoveTo 0 0), (1000 + 0.4, MoveTo 0 0),
             (1000 + 0.4, LeftClick)])"
  unfolding right_then_left_frames_def
  by (simp only: mouse_run.simps frame_open frame_point_early frame_point_late bind_err_def
      sum.case fst_conv snd_conv list.map append.simps)

theorem clicks_share_one_cooldown_witness:
  "0 \<le> click_cooldown mouse_1080p
   \<and> mouse_run exact_ops mouse_1080p right_then_left_frames
       = Inr (mouse_1080p\<lparr>last_click_time := 1000 + 0.4\<rparr>,
              [(1000, RightClick), (1000 + 0.1, MoveTo 0 0), (1000 + 0.4, MoveTo 0 0),
               (1000 + 0.4, LeftClick)])
   \<and> click_events [(1000, RightClick), (1000 + 0.1, MoveTo 0 0), (1000 + 0.4, MoveTo 0 0),
                     (1000 + 0.4, LeftClick)]
       = [(1000, RightClick), (1000 + 0.4, LeftClick)]
   \<and> fst ([(1000, RightClick), (1000 + 0.4, LeftClick)] ! 1)
         - fst ([(1000, RightClick), (1000 + 0.4, LeftClick)] ! 0) \<ge> click_cooldown mouse_1080p"
proof -
  let ?evs = "[(1000, RightClick), (1000 + 0.1, MoveTo 0 0), (1000 + 0.4, MoveTo 0 0),
               (1000 + 0.4, LeftClick)] :: (real \<times> mouse_event) list"
  have h: "0 \<le> click_cooldown mouse_1080p" by (simp add: mouse_1080p_def VirtualMouse_init_def)
  have r: "mouse_run exact_ops mouse_1080p right_then_left_frames
             = Inr (mouse_1080p\<lparr>last_click_time := 1000 + 0.4\<rparr>, ?evs)"
    by (rule right_then_left_run)
  have c: "click_events ?evs = [(1000, RightClick), (1000 + 0.4, LeftClick)]"
    by (simp add: click_events_def)
  have ij: "(0::nat) < 1 \<and> 1 < length (click_events ?evs)" unfolding c by simp
  have "fst (click_events ?evs ! 1) - fst (click_events ?evs ! 0) \<ge> click_cooldown mouse_1080p"
    using clicks_share_one_cooldown[OF h r] ij by blast
  then have g: "fst ([(1000, RightClick), (1000 + 0.4, LeftClick)] ! 1)
         - fst ([(1000::real, RightClick), (1000 + 0.4, LeftClick)] ! 0) \<ge> click_cooldown mouse_1080p"
    unfolding c .
  from h r c g show ?thesis by blast
qed

section \<open>The volume gate\<close>

lemma smooth_volume_keeps:
  "current_volume (snd (smooth_volume ops vc v)) = current_volume vc"
  "volume_available (snd (smooth_volume ops vc v)) = volume_available vc"
  "volume_method (snd (smooth_volume ops vc v)) = volume_method vc"
  by (simp_all add: smooth_volume_def Let_def)

lemma backend_calls_empty_iff:
  "backend_calls ops sinks vc v = [] \<longleftrightarrow>
     volume_method vc = NoMethod \<or> (volume_method vc = Pulse \<and> sinks = [])"
  by (simp add: backend_calls_def Let_def split: volume_method.splits)

lemma calls_made_empty_iff:
  "(case raising of None \<Rightarrow> calls | Some k \<Rightarrow> take (Suc k) calls) = [] \<longleftrightarrow> calls = []"
  by (cases raising) (simp_all add: take_Suc split: list.splits)

lemma set_volume_small_change:
  assumes "\<bar>f_sub ops (smoothed_percentage ops vc d) (current_volume vc)\<bar> < 2"
  shows "set_volume ops sinks raising vc d = (current_volume vc, pushed_state ops vc d, [])"
  using assms
  by (simp add: set_volume_def smoothed_percentage_def pushed_state_def Let_def split_beta
      smooth_volume_keeps)

lemma set_volume_large_change:
  assumes "\<not> \<bar>f_sub ops (smoothed_percentage ops vc d) (current_volume vc)\<bar> < 2"
  shows "fst (set_volume ops sinks raising vc d) = smoothed_percentage ops vc d"
    and "current_volume (fst (snd (set_volume ops sinks raising vc d)))
           = smoothed_percentage ops vc d"
    and "snd (snd (set_volume ops sinks raising vc d)) =
           (if volume_available vc
            then (case raising of
                    None \<Rightarrow>
                      backend_calls ops sinks
                        ((pushed_state ops vc d)\<lparr>current_volume := smoothed_percentage ops vc d\<rparr>)
                        (smoothed_percentage ops vc d)
                  | Some k \<Rightarrow>
                      take (Suc k)
                        (backend_calls ops sinks
                           ((pushed_state ops vc d)\<lparr>current_volume := smoothed_percentage ops vc d\<rparr>)
                           (smoothed_percentage ops vc d)))
            else [])"
  using assms
  by (simp_all add: set_volume_def smoothed_percentage_def pushed_state_def Let_def split_beta
      smooth_volume_keeps split: option.split)

text \<open>
  C7 (as amended). When the smoothed percentage differs from the held percentage by less
  than 2, \<open>set_volume\<close> returns the held percentage, leaves it unchanged, pushes the raw
  value into the history and calls no backend. Otherwise it stores and returns the
  smoothed percentage, and the calls it makes are those of the selected backend method,
  up to the first that raises, when \<open>volume_available\<close> holds, and none in simulation
  mode: a backend is called exactly when \<open>volume_available\<close> holds, a method is selected
  and, for PulseAudio (one call per sink), there is a sink.
\<close>

theorem set_volume_gate_and_dispatch:
  "(\<bar>f_sub ops (smoothed_percentage ops vc d) (current_volume vc)\<bar> < 2 \<longrightarrow>
      fst (set_volume ops sinks raising vc d) = current_volume vc
      \<and> fst (snd (set_volume ops sinks raising vc d)) = pushed_state ops vc d
      \<and> current_volume (fst (snd (set_volume ops sinks raising vc d))) = current_volume vc
      \<and> snd (snd (set_volume ops sinks raising vc d)) = [])
   \<and> (\<not> \<bar>f_sub ops (smoothed_percentage ops vc d) (current_volume vc)\<bar> < 2 \<longrightarrow>
      fst (set_volume ops sinks raising vc d) = smoothed_percentage ops vc d
      \<and> current_volume (fst (snd (set_volume ops sinks raising vc d)))
          = smoothed_percentage ops vc d
      \<and> snd (snd (set_volume ops sinks raising vc d)) =
           (if volume_available vc
            then (case raising of
                    None \<Rightarrow>
                      backend_calls ops sinks
                        ((pushed_state ops vc d)\<lparr>current_volume := smoothed_percentage ops vc d\<rparr>)
                        (smoothed_percentage ops vc d)
                  | Some k \<Rightarrow>
                      take (Suc k)
                        (backend_calls ops sinks
                           ((pushed_state ops vc d)\<lparr>current_volume := smoothed_percentage ops vc d\<rparr>)
                           (smoothed_percentage ops vc d)))
            else [])
      \<and> (snd (snd (set_volume ops sinks raising vc d)) \<noteq> [] \<longleftrightarrow>
            volume_available vc \<and> volume_method vc \<noteq> NoMethod
            \<and> (volume_method vc = Pulse \<longrightarrow> sinks \<noteq> [])))"
proof (intro conjI impI)
  assume a: "\<bar>f_sub ops (smoothed_percentage ops vc d) (current_volume vc)\<bar> < 2"
  note r = set_volume_small_change[OF a, of sinks raising]
  show "fst (set_volume ops sinks raising vc d) = current_volume vc" by (simp add: r)
  show "fst (snd (set_volume ops sinks raising vc d)) = pushed_state ops vc d" by (simp add: r)
  show "current_volume (fst (snd (set_volume ops sinks raising vc d))) = current_volume vc"
    by (simp add: r pushed_state_def smooth_volume_keeps)
  show "snd (snd (set_volume ops sinks raising vc d)) = []" by (simp add: r)
next
  assume a: "\<not> \<bar>f_sub ops (smoothed_percentage ops vc d) (current_volume vc)\<bar> < 2"
  note r = set_volume_large_change[OF a, of sinks raising]
  show "fst (set_volume ops sinks raising vc d) = smoothed_percentage ops vc d" by (rule r(1))
  show "current_volume (fst (snd (set_volume ops sinks raising vc d)))
          = smoothed_percentage ops vc d"
    by (rule r(2))
  show "snd (snd (set_volume ops sinks raising vc d)) =
           (if volume_available vc
            then (case raising of
                    None \<Rightarrow>
                      backend_calls ops sinks
                        ((pushed_state ops vc d)\<lparr>current_volume := smoothed_percentage ops vc d\<rparr>)
                        (smoothed_percentage ops vc d)
                  | Some k \<Rightarrow>
                      take (Suc k)
                        (backend_calls ops sinks
                           ((pushed_state ops vc d)\<lparr>current_volume := smoothed_percentage ops vc d\<rparr>)
                           (smoothed_percentage ops vc d)))
            else [])" by (rule r(3))
  show "snd (snd (set_volume ops sinks raising vc d)) \<noteq> [] \<longleftrightarrow>
            volume_available vc \<and> volume_method vc \<noteq> NoMethod
            \<and> (volume_method vc = Pulse \<longrightarrow> sinks \<noteq> [])"
    unfolding r(3)
    by (auto simp: calls_made_empty_iff backend_calls_empty_iff pushed_state_def
        smooth_volume_keeps)
qed

lemma smoothed_at_max:
  "smoothed_percentage exact_ops (VolumeController_init probe) 280 = 100"
  "pushed_state exact_ops (VolumeController_init probe) 280
     = (VolumeController_init probe)\<lparr>volume_history := [100]\<rparr>"
  by (simp_all add: smoothed_percentage_def pushed_state_def smooth_volume_def
      VolumeController_init_def exact_ops_def np_interp_def np_clip_def py_int_def)

lemma smoothed_at_max_again:
  "smoothed_percentage exact_ops
     ((VolumeController_init probe)\<lparr>volume_history := [100], current_volume := 100\<rparr>) 280 = 100"
  "pushed_state exact_ops
     ((VolumeController_init probe)\<lparr>volume_history := [100], current_volume := 100\<rparr>) 280
     = (VolumeController_init probe)\<lparr>volume_history := [100, 100], current_volume := 100\<rparr>"
  by (simp_all add: smoothed_percentage_def pushed_state_def smooth_volume_def
      VolumeController_init_def exact_ops_def np_interp_def np_clip_def py_int_def)

theorem set_volume_gate_and_dispatch_witness:
  "\<not> \<bar>f_sub exact_ops (smoothed_percentage exact_ops (VolumeController_init PulseOk) 280)
          (current_volume (VolumeController_init PulseOk))\<bar> < 2
   \<and> fst (set_volume exact_ops [0, 1] None (VolumeController_init PulseOk) 280) = 100
   \<and> current_volume (fst (snd (set_volume exact_ops [0, 1] None (VolumeController_init PulseOk) 280)))
       = 100
   \<and> snd (snd (set_volume exact_ops [0, 1] None (VolumeController_init PulseOk) 280))
       = [PulseVolumeSetAllChans 0 1, PulseVolumeSetAllChans 1 1]
   \<and> \<bar>f_sub exact_ops
        (smoothed_percentage exact_ops
           ((VolumeController_init PulseOk)\<lparr>volume_history := [100], current_volume := 100\<rparr>) 280)
        (current_volume
           ((VolumeController_init PulseOk)\<lparr>volume_history := [100], current_volume := 100\<rparr>))\<bar> < 2
   \<and> fst (set_volume exact_ops [0, 1] None
            ((VolumeController_init PulseOk)\<lparr>volume_history := [100], current_volume := 100\<rparr>) 280)
       = 100
   \<and> snd (snd (set_volume exact_ops [0, 1] None
            ((VolumeController_init PulseOk)\<lparr>volume_history := [100], current_volume := 100\<rparr>) 280))
       = []"
proof -
  let ?vc = "VolumeController_init PulseOk"
  let ?vc1 = "(VolumeController_init PulseOk)\<lparr>volume_history := [100], current_volume := 100\<rparr>"
  have cur: "current_volume ?vc = 50" "volume_available ?vc" "volume_method ?vc = Pulse"
    "current_volume ?vc1 = 100"
    by (simp_all add: VolumeController_init_def)
  have sub: "f_sub exact_ops 100 50 = 50" "f_sub exact_ops 100 100 = 0"
    "f_div exact_ops 100 100 = 1"
    by (simp_all add: exact_ops_def)
  have b: "\<not> \<bar>f_sub exact_ops (smoothed_percentage exact_ops ?vc 280) (current_volume ?vc)\<bar> < 2"
    by (simp add: smoothed_at_max cur sub)
  have a: "\<bar>f_sub exact_ops (smoothed_percentage exact_ops ?vc1 280) (current_volume ?vc1)\<bar> < 2"
    by (simp add: smoothed_at_max_again cur sub)
  note t1 = set_volume_gate_and_dispatch[of exact_ops ?vc 280 "[0, 1]" None]
  note t2 = set_volume_gate_and_dispatch[of exact_ops ?vc1 280 "[0, 1]" None]
  have c1: "fst (set_volume exact_ops [0, 1] None ?vc 280) = 100"
    using t1 b smoothed_at_max(1)[of PulseOk] by simp
  have c2: "current_volume (fst (snd (set_volume exact_ops [0, 1] None ?vc 280))) = 100"
    using t1 b smoothed_at_max(1)[of PulseOk] by simp
  let ?bc = "backend_calls exact_ops [0, 1]
            ((pushed_state exact_ops ?vc 280)
               \<lparr>current_volume := smoothed_percentage exact_ops ?vc 280\<rparr>)
            (smoothed_percentage exact_ops ?vc 280)"
  have bc: "?bc = [PulseVolumeSetAllChans 0 1, PulseVolumeSetAllChans 1 1]"
    by (simp add: backend_calls_def smoothed_at_max)
       (simp add: VolumeController_init_def exact_ops_def)
  have e: "snd (snd (set_volume exact_ops [0, 1] None ?vc 280)) =
          (if volume_available ?vc
           then (case (None :: nat option) of None \<Rightarrow> ?bc | Some k \<Rightarrow> take (Suc k) ?bc)
           else [])"
    using t1 b by blast
  have c3: "snd (snd (set_volume exact_ops [0, 1] None ?vc 280))
       = [PulseVolumeSetAllChans 0 1, PulseVolumeSetAllChans 1 1]"
    unfolding e bc using cur(2) by simp
  have c4: "fst (set_volume exact_ops [0, 1] None ?vc1 280) = 100"
    using t2 a cur(4) by simp
  have c5: "snd (snd (set_volume exact_ops [0, 1] None ?vc1 280)) = []"
    using t2 a by blast
  from a b c1 c2 c3 c4 c5 show ?thesis by blast
qed

text \<open>
  C7 as stated fails: with no backend (simulation mode), a distance of 280 moves the held
  percentage from 50 to 100 and no backend call is made.
\<close>

theorem set_volume_simulation_counterexample:
  "set_volume exact_ops [] None (VolumeController_init AllFailed) 280
     = (100, (VolumeController_init AllFailed)\<lparr>volume_history := [100], current_volume := 100\<rparr>, [])
   \<and> \<not> \<bar>f_sub exact_ops (smoothed_percentage exact_ops (VolumeController_init AllFailed) 280)
          (current_volume (VolumeController_init AllFailed))\<bar> < 2"
  by (simp add: smoothed_at_max)
     (simp add: set_volume_def smooth_volume_def VolumeController_init_def exact_ops_def
      np_interp_def np_clip_def py_int_def)

section \<open>The canvas\<close>

lemma fingers_up_complete:
  assumes "fingers_up lms = Inr fingers" and "lms \<noteq> []"
  shows "20 < length lms"
proof -
  from assms have "\<exists>v. py_index lms 20 = Inr v"
    by (auto simp: fingers_up_def bind_err_Inr)
  then show ?thesis by (auto simp: py_index_def split: if_splits)
qed

lemma setup_color_palette_boxes:
  "setup_color_palette p =
     Inr (p\<lparr>color_boxes :=
            [(''red'', (50, 20, 150, 80), (0, 0, 255)),
             (''green'', (170, 20, 270, 80), (0, 255, 0)),
             (''blue'', (290, 20, 390, 80), (255, 0, 0)),
             (''yellow'', (410, 20, 510, 80), (0, 255, 255)),
             (''white'', (530, 20, 630, 80), (255, 255, 255)),
             (''eraser'', (650, 20, 750, 80), (0, 0, 0))]\<rparr>)"
  by (simp add: setup_color_palette_def colors_get_def colors_def bind_err_def)

lemma check_color_selection_keeps:
  "canvas (snd (check_color_selection p x y)) = canvas p"
  by (simp add: check_color_selection_def split: option.splits)

lemma palette_step:
  "\<exists>p2. (if color_boxes p1 = [] then setup_color_palette p1 else Inr p1) = Inr p2
        \<and> canvas p2 = canvas p1"
proof (cases "color_boxes p1 = []")
  case True
  then show ?thesis by (simp add: setup_color_palette_boxes)
next
  case False then show ?thesis by simp
qed

lemma process_frame_selection:
  assumes f: "fingers_up lms = Inr [thumb, True, True, ring, pinky]"
  shows "\<exists>p'. process_frame cv_line p img lms = Inr p'
           \<and> canvas p' = (case canvas p of None \<Rightarrow> Some (zeros_like img) | Some c \<Rightarrow> Some c)
           \<and> painter_prev_x p' = 0 \<and> painter_prev_y p' = 0"
proof -
  have ne: "lms \<noteq> []" using f by (auto simp: fingers_up_def)
  from fingers_up_complete[OF f ne] have len: "20 < length lms" .
  let ?p1 = "if canvas p = None then p\<lparr>canvas := Some (zeros_like img)\<rparr> else p"
  have c1: "canvas ?p1 = (case canvas p of None \<Rightarrow> Some (zeros_like img) | Some c \<Rightarrow> Some c)"
    by (simp split: option.splits)
  from palette_step[of ?p1] obtain p2 where
    p2: "(if color_boxes ?p1 = [] then setup_color_palette ?p1 else Inr ?p1) = Inr p2"
    and c2: "canvas p2 = canvas ?p1" by blast
  have i8: "py_index lms 8 = Inr (lms ! 8)" and i12: "py_index lms 12 = Inr (lms ! 12)"
    using len by (simp_all add: py_index_def)
  have fl: "py_index [thumb, True, True, ring, pinky] (Suc 0) = Inr True"
    "py_index [thumb, True, True, ring, pinky] 2 = Inr True"
    by (simp_all add: py_index_def)
  let ?p3 = "snd (check_color_selection (p2\<lparr>drawing := False\<rparr>) (lm_x (lms ! 8)) (lm_y (lms ! 8)))"
  have r: "process_frame cv_line p img lms = Inr (?p3\<lparr>painter_prev_x := 0, painter_prev_y := 0\<rparr>)"
    unfolding process_frame_def Let_def p2
    using ne by (simp add: bind_err_def i8 i12 f fl)
  have "canvas (?p3\<lparr>painter_prev_x := 0, painter_prev_y := 0\<rparr>) = canvas p2"
    by (simp add: check_color_selection_keeps)
  with r c1 c2 show ?thesis by simp
qed

lemma zeros_like_pixels:
  "\<forall>row \<in> set (zeros_like c). \<forall>px \<in> set row. px = (0, 0, 0)"
  by (auto simp: zeros_like_def)

lemma zeros_like_shape: "map length (zeros_like c) = map length c"
  by (simp add: zeros_like_def)

text \<open>
  C8. On a frame with index and middle finger up, \<open>process_frame\<close> returns normally, the
  canvas is the one it had (or the fresh all-zero canvas when none existed yet), and the
  previous stroke point is reset to \<open>(0, 0)\<close>, the painter's "none". \<open>clear_canvas\<close> on an
  existing canvas keeps its shape and sets every pixel to zero.
\<close>

theorem selection_keeps_canvas_and_clear_zeroes:
  "(fingers_up lms = Inr [thumb, True, True, ring, pinky] \<longrightarrow>
      (\<exists>p'. process_frame cv_line p img lms = Inr p'
           \<and> canvas p' = (case canvas p of None \<Rightarrow> Some (zeros_like img) | Some c \<Rightarrow> Some c)
           \<and> painter_prev_x p' = 0 \<and> painter_prev_y p' = 0))
   \<and> (canvas p = Some c \<longrightarrow>
      (\<exists>c'. canvas (clear_canvas p) = Some c' \<and> map length c' = map length c
           \<and> (\<forall>row \<in> set c'. \<forall>px \<in> set row. px = (0, 0, 0))))"
proof (intro conjI impI)
  assume "fingers_up lms = Inr [thumb, True, True, ring, pinky]"
  then show "\<exists>p'. process_frame cv_line p img lms = Inr p'
           \<and> canvas p' = (case canvas p of None \<Rightarrow> Some (zeros_like img) | Some c \<Rightarrow> Some c)
           \<and> painter_prev_x p' = 0 \<and> painter_prev_y p' = 0"
    by (rule process_frame_selection)
next
  assume c: "canvas p = Some c"
  then have "canvas (clear_canvas p) = Some (zeros_like c)" by (simp add: clear_canvas_def)
  then show "\<exists>c'. canvas (clear_canvas p) = Some c' \<and> map length c' = map length c
           \<and> (\<forall>row \<in> set c'. \<forall>px \<in> set row. px = (0, 0, 0))"
    using zeros_like_pixels[of c] zeros_like_shape[of c] by blast
qed

theorem selection_keeps_canvas_and_clear_zeroes_witness:
  "fingers_up peace_hand = Inr [False, True, True, False, False]
   \<and> (\<exists>p'. process_frame (\<lambda>c a b col t. []) painted [[(1, 2, 3), (4, 5, 6)]] peace_hand = Inr p'
         \<and> canvas p' = Some [[(255, 0, 0), (0, 0, 0)]]
         \<and> painter_prev_x p' = 0 \<and> painter_prev_y p' = 0)
   \<and> canvas painted = Some [[(255, 0, 0), (0, 0, 0)]]
   \<and> (\<exists>c'. canvas (clear_canvas painted) = Some c'
         \<and> map length c' = map length [[(255, 0, 0), (0, 0, 0) :: color]]
         \<and> (\<forall>row \<in> set c'. \<forall>px \<in> set row. px = (0, 0, 0)))"
proof -
  have f: "fingers_up peace_hand = Inr [False, True, True, False, False]"
    by (simp add: fingers_up_def peace_hand_def py_index_def bind_err_def lm_x_def lm_y_def)
  have c: "canvas painted = Some [[(255, 0, 0), (0, 0, 0)]]"
    by (simp add: painted_def VirtualPainter_init_def)
  note th = selection_keeps_canvas_and_clear_zeroes[of peace_hand False False False
      "\<lambda>c a b col t. []" painted "[[(1, 2, 3), (4, 5, 6)]]" "[[(255, 0, 0), (0, 0, 0)]]"]
  from th f have "\<exists>p'. process_frame (\<lambda>c a b col t. []) painted [[(1, 2, 3), (4, 5, 6)]] peace_hand = Inr p'
         \<and> canvas p' = (case canvas painted of None \<Rightarrow> Some (zeros_like [[(1, 2, 3), (4, 5, 6)]])
                          | Some c \<Rightarrow> Some c)
         \<and> painter_prev_x p' = 0 \<and> painter_prev_y p' = 0" by blast
  then have a: "\<exists>p'. process_frame (\<lambda>c a b col t. []) painted [[(1, 2, 3), (4, 5, 6)]] peace_hand = Inr p'
         \<and> canvas p' = Some [[(255, 0, 0), (0, 0, 0)]]
         \<and> painter_prev_x p' = 0 \<and> painter_prev_y p' = 0"
    by (simp add: c)
  from th c have b: "\<exists>c'. canvas (clear_canvas painted) = Some c'
         \<and> map length c' = map length [[(255, 0, 0), (0, 0, 0) :: color]]
         \<and> (\<forall>row \<in> set c'. \<forall>px \<in> set row. px = (0, 0, 0))" by blast
  from f a c b show ?thesis by blast
qed

section \<open>Construction\<close>

text \<open>
  C9 (as amended). The constructors take no numeric configuration and cannot fail: the
  label window has capacity 5, the volume window capacity 8, and the distance range is
  20 to 280. Nothing validates these fields later: with a capacity of 0 and an empty
  window, both smoothers return their argument and leave the window empty.
\<close>

theorem constructors_fix_configuration:
  "gesture_history_length GestureRecognizer_init = 5
   \<and> gesture_history GestureRecognizer_init = []
   \<and> volume_history_length (VolumeController_init probe) = 8
   \<and> min_distance (VolumeController_init probe) = 20
   \<and> max_distance (VolumeController_init probe) = 280
   \<and> smooth_gesture set_iter (gr\<lparr>gesture_history := [], gesture_history_length := 0\<rparr>) g
        = Inr (g, gr\<lparr>gesture_history := [], gesture_history_length := 0\<rparr>)
   \<and> smooth_volume ops (vc\<lparr>volume_history := [], volume_history_length := 0\<rparr>) v
        = (v, vc\<lparr>volume_history := [], volume_history_length := 0\<rparr>)"
  by (simp add: GestureRecognizer_init_def VolumeController_init_def smooth_gesture_def
      smooth_volume_def)

text \<open>
  C9 as stated fails: a recognizer and a controller whose capacity is set to 0, and a
  controller whose \<open>max_distance\<close> is below its \<open>min_distance\<close>, are accepted and used.
\<close>

theorem invalid_configuration_accepted_counterexample:
  "smooth_gesture remdups (GestureRecognizer_init\<lparr>gesture_history_length := 0\<rparr>) ''Fist''
     = Inr (''Fist'', GestureRecognizer_init\<lparr>gesture_history_length := 0\<rparr>)
   \<and> smooth_volume exact_ops ((VolumeController_init AllFailed)\<lparr>volume_history_length := 0\<rparr>) 30
     = (30, (VolumeController_init AllFailed)\<lparr>volume_history_length := 0\<rparr>)
   \<and> set_volume exact_ops [] None
        ((VolumeController_init AllFailed)\<lparr>min_distance := 280, max_distance := 20\<rparr>) 150
     = (100, (VolumeController_init AllFailed)
               \<lparr>min_distance := 280, max_distance := 20, volume_history := [100],
                current_volume := 100\<rparr>, [])"
  by (simp add: GestureRecognizer_init_def VolumeController_init_def smooth_gesture_def
      smooth_volume_def set_volume_def exact_ops_def np_interp_def np_clip_def py_int_def)

end
